theory Spec2Isabelle
  imports Main "HOL-Library.Word" "HOL-Library.Signed_Division"
begin

unbundle bit_operations_syntax

section \<open>Adafruit\_DotStarMatrix: the pixel-addressing engine\<close>

text \<open>
  A shallow embedding of \<^verbatim>\<open>Adafruit_DotStarMatrix.cpp\<close> and its header.

  Integer types. \<^verbatim>\<open>uint8_t\<close>, \<^verbatim>\<open>uint16_t\<close> and \<^verbatim>\<open>uint32_t\<close> are words of
  that width, read by \<open>uint\<close>; \<^verbatim>\<open>int16_t\<close> is a 16-bit word read by \<open>sint\<close>.
  Every C arithmetic expression of the source has operands narrower than \<^verbatim>\<open>int\<close>,
  which C promotes to \<^verbatim>\<open>int\<close> before computing: the model computes such an
  expression on HOL's \<open>int\<close> and converts the result back with \<open>word_of_int\<close> where
  the source stores it in a 16-bit variable (the conversion is modulo \<open>2^16\<close>). The
  two locals the source declares as \<^verbatim>\<open>int\<close> (\<^verbatim>\<open>tileOffset\<close>, \<^verbatim>\<open>pixelOffset\<close>) are
  HOL integers: the model is that of a target whose \<^verbatim>\<open>int\<close> is wide enough for them
  (in a configuration an index is below the number of pixels, and that number is below
  \<open>2^30\<close>, lemma \<open>element_count_below\<close>: 32 bits suffice).

  Division by zero (\<^verbatim>\<open>x / matrixWidth\<close> with a zero tile size) is undefined in C.
  The model returns \<open>None\<close> there, so every function that may reach the division
  returns an \<open>option\<close>.
\<close>

type_synonym uint8_t = "8 word"
type_synonym uint16_t = "16 word"
type_synonym int16_t = "16 word"
type_synonym uint32_t = "32 word"

subsection \<open>Layout flags (the header's macros)\<close>

definition DS_MATRIX_TOP :: uint8_t where "DS_MATRIX_TOP = 0x00"
definition DS_MATRIX_BOTTOM :: uint8_t where "DS_MATRIX_BOTTOM = 0x01"
definition DS_MATRIX_LEFT :: uint8_t where "DS_MATRIX_LEFT = 0x00"
definition DS_MATRIX_RIGHT :: uint8_t where "DS_MATRIX_RIGHT = 0x02"
definition DS_MATRIX_CORNER :: uint8_t where "DS_MATRIX_CORNER = 0x03"
definition DS_MATRIX_ROWS :: uint8_t where "DS_MATRIX_ROWS = 0x00"
definition DS_MATRIX_COLUMNS :: uint8_t where "DS_MATRIX_COLUMNS = 0x04"
definition DS_MATRIX_AXIS :: uint8_t where "DS_MATRIX_AXIS = 0x04"
definition DS_MATRIX_PROGRESSIVE :: uint8_t where "DS_MATRIX_PROGRESSIVE = 0x00"
definition DS_MATRIX_ZIGZAG :: uint8_t where "DS_MATRIX_ZIGZAG = 0x08"
definition DS_MATRIX_SEQUENCE :: uint8_t where "DS_MATRIX_SEQUENCE = 0x08"

definition DS_TILE_TOP :: uint8_t where "DS_TILE_TOP = 0x00"
definition DS_TILE_BOTTOM :: uint8_t where "DS_TILE_BOTTOM = 0x10"
definition DS_TILE_LEFT :: uint8_t where "DS_TILE_LEFT = 0x00"
definition DS_TILE_RIGHT :: uint8_t where "DS_TILE_RIGHT = 0x20"
definition DS_TILE_CORNER :: uint8_t where "DS_TILE_CORNER = 0x30"
definition DS_TILE_ROWS :: uint8_t where "DS_TILE_ROWS = 0x00"
definition DS_TILE_COLUMNS :: uint8_t where "DS_TILE_COLUMNS = 0x40"
definition DS_TILE_AXIS :: uint8_t where "DS_TILE_AXIS = 0x40"
definition DS_TILE_PROGRESSIVE :: uint8_t where "DS_TILE_PROGRESSIVE = 0x00"
definition DS_TILE_ZIGZAG :: uint8_t where "DS_TILE_ZIGZAG = 0x80"
definition DS_TILE_SEQUENCE :: uint8_t where "DS_TILE_SEQUENCE = 0x80"

lemmas DS_defs =
  DS_MATRIX_TOP_def DS_MATRIX_BOTTOM_def DS_MATRIX_LEFT_def DS_MATRIX_RIGHT_def
  DS_MATRIX_CORNER_def DS_MATRIX_ROWS_def DS_MATRIX_COLUMNS_def DS_MATRIX_AXIS_def
  DS_MATRIX_PROGRESSIVE_def DS_MATRIX_ZIGZAG_def DS_MATRIX_SEQUENCE_def
  DS_TILE_TOP_def DS_TILE_BOTTOM_def DS_TILE_LEFT_def DS_TILE_RIGHT_def
  DS_TILE_CORNER_def DS_TILE_ROWS_def DS_TILE_COLUMNS_def DS_TILE_AXIS_def
  DS_TILE_PROGRESSIVE_def DS_TILE_ZIGZAG_def DS_TILE_SEQUENCE_def

subsection \<open>The object\<close>

text \<open>
  The class derives from two classes of other libraries. Of the drawing library the
  model keeps the fields \<^verbatim>\<open>drawPixel\<close> reads: \<^verbatim>\<open>WIDTH\<close>, \<^verbatim>\<open>HEIGHT\<close> (the unrotated
  canvas), \<^verbatim>\<open>_width\<close>, \<^verbatim>\<open>_height\<close> (the canvas as rotated, here \<open>width'\<close> and
  \<open>height'\<close>) and \<^verbatim>\<open>rotation\<close>. Of the LED strip it keeps \<^verbatim>\<open>numLEDs\<close> (what
  \<^verbatim>\<open>numPixels()\<close> returns) and, as the field \<open>pixels\<close>, the sequence of calls
  \<^verbatim>\<open>setPixelColor(n, c)\<close> made so far, each with the value of its index expression
  and its colour (the type of the strip's parameter, and what the strip does with an
  index beyond its length, are the strip's). The remaining fields are the private
  fields of the header.
\<close>

record DotStarMatrix =
  WIDTH :: int16_t
  HEIGHT :: int16_t
  width' :: int16_t
  height' :: int16_t
  rotation :: uint8_t
  numLEDs :: uint16_t
  pixels :: "(int \<times> uint32_t) list"
  type :: uint8_t
  matrixWidth :: uint8_t
  matrixHeight :: uint8_t
  tilesX :: uint8_t
  tilesY :: uint8_t
  remapFn :: "(uint16_t \<Rightarrow> uint16_t \<Rightarrow> uint16_t) option"
  passThruColor :: uint32_t
  passThruFlag :: bool

text \<open>The strip's \<^verbatim>\<open>setPixelColor\<close>, at the boundary: the call is recorded.\<close>

definition setPixelColor :: "int \<Rightarrow> uint32_t \<Rightarrow> DotStarMatrix \<Rightarrow> DotStarMatrix" where
  "setPixelColor n c s = s\<lparr>pixels := pixels s @ [(n, c)]\<rparr>"

text \<open>
  The strip counts its pixels in \<^verbatim>\<open>uint16_t\<close> (\<^verbatim>\<open>fillScreen\<close> holds \<^verbatim>\<open>numPixels()\<close>
  in one, and a remap function returns the strip index as one): of an index expression
  outside \<open>0..65535\<close> it receives \<open>stripIndex\<close>, the value modulo \<open>2^16\<close>.
\<close>

definition stripIndex :: "int \<Rightarrow> uint16_t" where
  "stripIndex n = word_of_int n"

text \<open>
  The drawing library's \<^verbatim>\<open>setRotation\<close>, at the boundary: it keeps the two low bits
  of its argument and swaps the current canvas dimensions for the odd rotations.
\<close>

definition setRotation :: "uint8_t \<Rightarrow> DotStarMatrix \<Rightarrow> DotStarMatrix" where
  "setRotation r s =
     (let rot = r AND 3 in
      if rot = 1 \<or> rot = 3
      then s\<lparr>rotation := rot, width' := HEIGHT s, height' := WIDTH s\<rparr>
      else s\<lparr>rotation := rot, width' := WIDTH s, height' := HEIGHT s\<rparr>)"

subsection \<open>Constructors\<close>

text \<open>
  The four constructors. The base-class constructors take \<^verbatim>\<open>int16_t w, int16_t h\<close>
  (canvas) and \<^verbatim>\<open>uint16_t n\<close> (number of LEDs); the private fields are
  \<^verbatim>\<open>uint8_t\<close>, so the \<^verbatim>\<open>int\<close> arguments of the single-matrix constructors are
  converted: to 16 bits for the canvas and the strip, to 8 bits for \<^verbatim>\<open>matrixWidth\<close>
  and \<^verbatim>\<open>matrixHeight\<close>. \<^verbatim>\<open>passThruColor\<close> has no initialiser: its first value is the argument
  \<open>pc\<close>. The pins \<open>d\<close>, \<open>c\<close> and the \<open>ledType\<close> go to the strip only.
\<close>

definition Adafruit_DotStarMatrix_single ::
  "int \<Rightarrow> int \<Rightarrow> uint8_t \<Rightarrow> uint8_t \<Rightarrow> uint32_t \<Rightarrow> DotStarMatrix" where
  "Adafruit_DotStarMatrix_single w h matrixType ledType pc =
     \<lparr>WIDTH = word_of_int w, HEIGHT = word_of_int h,
      width' = word_of_int w, height' = word_of_int h, rotation = 0,
      numLEDs = word_of_int (w * h), pixels = [],
      type = matrixType, matrixWidth = word_of_int w, matrixHeight = word_of_int h,
      tilesX = 0, tilesY = 0, remapFn = None,
      passThruColor = pc, passThruFlag = False\<rparr>"

definition Adafruit_DotStarMatrix_single_bitbang ::
  "int \<Rightarrow> int \<Rightarrow> uint8_t \<Rightarrow> uint8_t \<Rightarrow> uint8_t \<Rightarrow> uint8_t \<Rightarrow> uint32_t \<Rightarrow> DotStarMatrix" where
  "Adafruit_DotStarMatrix_single_bitbang w h d c matrixType ledType pc =
     \<lparr>WIDTH = word_of_int w, HEIGHT = word_of_int h,
      width' = word_of_int w, height' = word_of_int h, rotation = 0,
      numLEDs = word_of_int (w * h), pixels = [],
      type = matrixType, matrixWidth = word_of_int w, matrixHeight = word_of_int h,
      tilesX = 0, tilesY = 0, remapFn = None,
      passThruColor = pc, passThruFlag = False\<rparr>"

definition Adafruit_DotStarMatrix_tiled ::
  "uint8_t \<Rightarrow> uint8_t \<Rightarrow> uint8_t \<Rightarrow> uint8_t \<Rightarrow> uint8_t \<Rightarrow> uint8_t \<Rightarrow> uint32_t \<Rightarrow> DotStarMatrix" where
  "Adafruit_DotStarMatrix_tiled mW mH tX tY matrixType ledType pc =
     \<lparr>WIDTH = word_of_int (uint mW * uint tX), HEIGHT = word_of_int (uint mH * uint tY),
      width' = word_of_int (uint mW * uint tX), height' = word_of_int (uint mH * uint tY),
      rotation = 0,
      numLEDs = word_of_int (uint mW * uint mH * uint tX * uint tY), pixels = [],
      type = matrixType, matrixWidth = mW, matrixHeight = mH,
      tilesX = tX, tilesY = tY, remapFn = None,
      passThruColor = pc, passThruFlag = False\<rparr>"

definition Adafruit_DotStarMatrix_tiled_bitbang ::
  "uint8_t \<Rightarrow> uint8_t \<Rightarrow> uint8_t \<Rightarrow> uint8_t \<Rightarrow> uint8_t \<Rightarrow> uint8_t \<Rightarrow> uint8_t \<Rightarrow> uint8_t \<Rightarrow> uint32_t
     \<Rightarrow> DotStarMatrix" where
  "Adafruit_DotStarMatrix_tiled_bitbang mW mH tX tY d c matrixType ledType pc =
     \<lparr>WIDTH = word_of_int (uint mW * uint tX), HEIGHT = word_of_int (uint mH * uint tY),
      width' = word_of_int (uint mW * uint tX), height' = word_of_int (uint mH * uint tY),
      rotation = 0,
      numLEDs = word_of_int (uint mW * uint mH * uint tX * uint tY), pixels = [],
      type = matrixType, matrixWidth = mW, matrixHeight = mH,
      tilesX = tX, tilesY = tY, remapFn = None,
      passThruColor = pc, passThruFlag = False\<rparr>"

subsection \<open>Colour\<close>

text \<open>
  \<^verbatim>\<open>gamma.h\<close> is not part of the sources at hand: the two tables \<^verbatim>\<open>gamma5\<close> (32
  entries) and \<^verbatim>\<open>gamma6\<close> (64 entries) are parameters, as functions of the index.
\<close>

record gamma_h =
  gamma5 :: "nat \<Rightarrow> uint8_t"
  gamma6 :: "nat \<Rightarrow> uint8_t"

definition expandColor :: "gamma_h \<Rightarrow> uint16_t \<Rightarrow> uint32_t" where
  "expandColor g color =
     push_bit 16 (ucast (gamma5 g (unat (drop_bit 11 color)))) OR
     push_bit 8 (ucast (gamma6 g (unat (drop_bit 5 color AND 0x3F)))) OR
     ucast (gamma5 g (unat (color AND 0x1F)))"

definition setPassThruColor :: "uint32_t \<Rightarrow> DotStarMatrix \<Rightarrow> DotStarMatrix" where
  "setPassThruColor c s = s\<lparr>passThruColor := c, passThruFlag := True\<rparr>"

definition setPassThruColor_void :: "DotStarMatrix \<Rightarrow> DotStarMatrix" where
  "setPassThruColor_void s = s\<lparr>passThruFlag := False\<rparr>"

definition setRemapFunction ::
  "(uint16_t \<Rightarrow> uint16_t \<Rightarrow> uint16_t) option \<Rightarrow> DotStarMatrix \<Rightarrow> DotStarMatrix" where
  "setRemapFunction fn s = s\<lparr>remapFn := fn\<rparr>"

subsection \<open>drawPixel\<close>

text \<open>The bounds check of the first statement: true when the call returns at once.\<close>

definition clipped :: "DotStarMatrix \<Rightarrow> int16_t \<Rightarrow> int16_t \<Rightarrow> bool" where
  "clipped s x y \<longleftrightarrow>
     sint x < 0 \<or> sint y < 0 \<or> sint x \<ge> sint (width' s) \<or> sint y \<ge> sint (height' s)"

text \<open>The \<^verbatim>\<open>switch (rotation)\<close>; it has no default case.\<close>

definition unrotate :: "DotStarMatrix \<Rightarrow> int16_t \<Rightarrow> int16_t \<Rightarrow> int16_t \<times> int16_t" where
  "unrotate s x y =
     (if rotation s = 1 then (word_of_int (sint (WIDTH s) - 1 - sint y), x)
      else if rotation s = 2 then
        (word_of_int (sint (WIDTH s) - 1 - sint x), word_of_int (sint (HEIGHT s) - 1 - sint y))
      else if rotation s = 3 then (y, word_of_int (sint (HEIGHT s) - 1 - sint x))
      else (x, y))"

text \<open>
  The block under \<^verbatim>\<open>if (tilesX)\<close>. It returns \<^verbatim>\<open>tileOffset\<close>, the corner (flipped on
  the odd lines of a zigzag tiling) and the coordinates within the tile; \<open>None\<close>
  stands for the division by a zero tile size.
\<close>

definition tileResolve ::
  "DotStarMatrix \<Rightarrow> uint8_t \<Rightarrow> int16_t \<Rightarrow> int16_t \<Rightarrow> (int \<times> uint8_t \<times> int16_t \<times> int16_t) option" where
  "tileResolve s corner x y =
     (if matrixWidth s = 0 \<or> matrixHeight s = 0 then None
      else
        let minor = (word_of_int (sint x sdiv uint (matrixWidth s)) :: uint16_t);
            major = (word_of_int (sint y sdiv uint (matrixHeight s)) :: uint16_t);
            x = (word_of_int (sint x - uint minor * uint (matrixWidth s)) :: int16_t);
            y = (word_of_int (sint y - uint major * uint (matrixHeight s)) :: int16_t);
            minor = (if type s AND DS_TILE_RIGHT \<noteq> 0
                     then word_of_int (uint (tilesX s) - 1 - uint minor) else minor);
            major = (if type s AND DS_TILE_BOTTOM \<noteq> 0
                     then word_of_int (uint (tilesY s) - 1 - uint major) else major);
            (major, minor, majorScale) =
              (if type s AND DS_TILE_AXIS = DS_TILE_ROWS
               then (major, minor, (ucast (tilesX s) :: uint16_t))
               else (minor, major, ucast (tilesY s)));
            (corner, tile) =
              (if type s AND DS_TILE_SEQUENCE = DS_TILE_PROGRESSIVE
               then (corner, (word_of_int (uint major * uint majorScale + uint minor) :: uint16_t))
               else if major AND 1 \<noteq> 0
               then (corner XOR DS_MATRIX_CORNER,
                     word_of_int ((uint major + 1) * uint majorScale - 1 - uint minor))
               else (corner, word_of_int (uint major * uint majorScale + uint minor)))
        in Some (uint tile * uint (matrixWidth s) * uint (matrixHeight s), corner, x, y))"

text \<open>
  The pixel within the tile, in two steps: corner and axis (\<open>pixelAxes\<close> returns
  \<^verbatim>\<open>major\<close>, \<^verbatim>\<open>minor\<close> and \<^verbatim>\<open>majorScale\<close>), then the line order.
\<close>

definition pixelAxes ::
  "DotStarMatrix \<Rightarrow> uint8_t \<Rightarrow> int16_t \<Rightarrow> int16_t \<Rightarrow> uint16_t \<times> uint16_t \<times> uint16_t" where
  "pixelAxes s corner x y =
     (let minor = x;
          major = y;
          minor = (if corner AND DS_MATRIX_RIGHT \<noteq> 0
                   then word_of_int (uint (matrixWidth s) - 1 - uint minor) else minor);
          major = (if corner AND DS_MATRIX_BOTTOM \<noteq> 0
                   then word_of_int (uint (matrixHeight s) - 1 - uint major) else major)
      in if type s AND DS_MATRIX_AXIS = DS_MATRIX_ROWS
         then (major, minor, ucast (matrixWidth s))
         else (minor, major, ucast (matrixHeight s)))"

definition pixelResolve :: "DotStarMatrix \<Rightarrow> uint8_t \<Rightarrow> int16_t \<Rightarrow> int16_t \<Rightarrow> int" where
  "pixelResolve s corner x y =
     (let (major, minor, majorScale) = pixelAxes s corner x y
      in if type s AND DS_MATRIX_SEQUENCE = DS_MATRIX_PROGRESSIVE
         then uint major * uint majorScale + uint minor
         else if major AND 1 \<noteq> 0
         then (uint major + 1) * uint majorScale - 1 - uint minor
         else uint major * uint majorScale + uint minor)"

text \<open>
  From the coordinates after rotation to the pair \<^verbatim>\<open>(tileOffset, pixelOffset)\<close>, and
  to the index \<^verbatim>\<open>tileOffset + pixelOffset\<close> handed to \<^verbatim>\<open>setPixelColor\<close>.
\<close>

definition offsets :: "DotStarMatrix \<Rightarrow> int16_t \<Rightarrow> int16_t \<Rightarrow> (int \<times> int) option" where
  "offsets s x y =
     (case remapFn s of
        Some fn \<Rightarrow> Some (0, uint (fn x y))
      | None \<Rightarrow>
          (let corner = type s AND DS_MATRIX_CORNER in
           if tilesX s \<noteq> 0 then
             (case tileResolve s corner x y of
                None \<Rightarrow> None
              | Some (tileOffset, corner, x, y) \<Rightarrow> Some (tileOffset, pixelResolve s corner x y))
           else Some (0, pixelResolve s corner x y)))"

definition drawIndex :: "DotStarMatrix \<Rightarrow> int16_t \<Rightarrow> int16_t \<Rightarrow> int option" where
  "drawIndex s x y =
     (case unrotate s x y of (x, y) \<Rightarrow>
        (case offsets s x y of
           None \<Rightarrow> None
         | Some (tileOffset, pixelOffset) \<Rightarrow> Some (tileOffset + pixelOffset)))"

definition drawPixel ::
  "gamma_h \<Rightarrow> int16_t \<Rightarrow> int16_t \<Rightarrow> uint16_t \<Rightarrow> DotStarMatrix \<Rightarrow> DotStarMatrix option" where
  "drawPixel g x y color s =
     (if clipped s x y then Some s
      else
        (case drawIndex s x y of
           None \<Rightarrow> None
         | Some n \<Rightarrow>
             Some (setPixelColor n
                     (if passThruFlag s then passThruColor s else expandColor g color) s)))"

subsection \<open>fillScreen\<close>

text \<open>The \<^verbatim>\<open>for (i = 0; i < n; i++)\<close> loop, with its \<^verbatim>\<open>uint16_t\<close> counter.\<close>

function fillLoop :: "uint16_t \<Rightarrow> uint16_t \<Rightarrow> uint32_t \<Rightarrow> DotStarMatrix \<Rightarrow> DotStarMatrix" where
  "fillLoop i n c s = (if i < n then fillLoop (i + 1) n c (setPixelColor (uint i) c s) else s)"
  by pat_completeness auto
termination
proof (relation "measure (\<lambda>(i, n, c, s). unat n - unat i)")
  show "wf (measure (\<lambda>(i, n, c, s). unat n - unat i))" by simp
next
  fix i n :: uint16_t and c :: uint32_t and s :: DotStarMatrix
  assume "i < n"
  then have less: "unat i < unat n" by (simp add: word_less_nat_alt)
  moreover have "unat n < 2 ^ 16" using unsigned_less [of n, where ?'a = nat] by simp
  ultimately have "unat i + unat (1 :: 16 word) < 2 ^ LENGTH(16)" by simp
  then have "unat (i + 1) = unat i + unat (1 :: 16 word)" by (simp only: unat_add_lem)
  with less have "unat (i + 1) = Suc (unat i)" and "unat i < unat n" by simp_all
  then show "((i + 1, n, c, setPixelColor (uint i) c s), (i, n, c, s))
      \<in> measure (\<lambda>(i, n, c, s). unat n - unat i)"
    by simp
qed

declare fillLoop.simps [simp del]

definition fillScreen :: "gamma_h \<Rightarrow> uint16_t \<Rightarrow> DotStarMatrix \<Rightarrow> DotStarMatrix" where
  "fillScreen g color s =
     (let c = (if passThruFlag s then passThruColor s else expandColor g color);
          n = numLEDs s
      in fillLoop 0 n c s)"

subsection \<open>The life of an object\<close>

text \<open>
  The public calls that act on the object after its construction, and a sequence of
  them run from left to right. A call that divides by zero ends the run with \<open>None\<close>.
\<close>

datatype call =
    DrawPixel int16_t int16_t uint16_t
  | FillScreen uint16_t
  | SetPassThruColor uint32_t
  | SetPassThruColor_void
  | SetRemapFunction "(uint16_t \<Rightarrow> uint16_t \<Rightarrow> uint16_t) option"
  | SetRotation uint8_t

fun perform :: "gamma_h \<Rightarrow> call \<Rightarrow> DotStarMatrix \<Rightarrow> DotStarMatrix option" where
  "perform g (DrawPixel x y color) s = drawPixel g x y color s"
| "perform g (FillScreen color) s = Some (fillScreen g color s)"
| "perform g (SetPassThruColor c) s = Some (setPassThruColor c s)"
| "perform g SetPassThruColor_void s = Some (setPassThruColor_void s)"
| "perform g (SetRemapFunction fn) s = Some (setRemapFunction fn s)"
| "perform g (SetRotation r) s = Some (setRotation r s)"

fun run :: "gamma_h \<Rightarrow> call list \<Rightarrow> DotStarMatrix \<Rightarrow> DotStarMatrix option" where
  "run g [] s = Some s"
| "run g (c # cs) s = (case perform g c s of None \<Rightarrow> None | Some s' \<Rightarrow> run g cs s')"

subsection \<open>Objects used as examples\<close>

text \<open>Two linear tables, standing in for \<^verbatim>\<open>gamma.h\<close> in the examples.\<close>

definition gamma_linear :: gamma_h where
  "gamma_linear = \<lparr>gamma5 = (\<lambda>i. word_of_nat (8 * i)), gamma6 = (\<lambda>i. word_of_nat (4 * i))\<rparr>"

text \<open>An 8x8 matrix, first pixel top right, in columns, every column in the same order.\<close>

definition matrix8x8 :: DotStarMatrix where
  "matrix8x8 =
     Adafruit_DotStarMatrix_single 8 8
       (DS_MATRIX_TOP + DS_MATRIX_RIGHT + DS_MATRIX_COLUMNS + DS_MATRIX_PROGRESSIVE) 0 0"

text \<open>A 5x3 matrix, first pixel top left, in rows, every row in the same order.\<close>

definition matrix5x3 :: DotStarMatrix where
  "matrix5x3 =
     Adafruit_DotStarMatrix_single 5 3
       (DS_MATRIX_TOP + DS_MATRIX_LEFT + DS_MATRIX_ROWS + DS_MATRIX_PROGRESSIVE) 0 0"

text \<open>
  Two matrices wider than 255: 300x2, first pixel top left, and 300x1, first pixel top
  right; both in rows, every row in the same order.
\<close>

definition matrix300x2 :: DotStarMatrix where
  "matrix300x2 =
     Adafruit_DotStarMatrix_single 300 2
       (DS_MATRIX_TOP + DS_MATRIX_LEFT + DS_MATRIX_ROWS + DS_MATRIX_PROGRESSIVE) 0 0"

definition matrix300x1 :: DotStarMatrix where
  "matrix300x1 =
     Adafruit_DotStarMatrix_single 300 1
       (DS_MATRIX_TOP + DS_MATRIX_RIGHT + DS_MATRIX_ROWS + DS_MATRIX_PROGRESSIVE) 0 0"

text \<open>Two tiles of 255x255 pixels side by side: 130050 pixels.\<close>

definition tiles255 :: DotStarMatrix where
  "tiles255 = Adafruit_DotStarMatrix_tiled 255 255 2 1 0 0 0"

text \<open>Two tiles of 2x2 pixels, one above the other, the tiles in zigzag order.\<close>

definition tiles1x2 :: DotStarMatrix where
  "tiles1x2 = Adafruit_DotStarMatrix_tiled 2 2 1 2 DS_TILE_ZIGZAG 0 0"

text \<open>A remap function that sends every coordinate to the largest index.\<close>

definition remapConst :: "uint16_t \<Rightarrow> uint16_t \<Rightarrow> uint16_t" where
  "remapConst x y = 65535"

subsection \<open>Vocabulary of the properties\<close>

text \<open>The configuration and colour fields of \<open>s'\<close> are those of \<open>s\<close>.\<close>

definition unchanged :: "DotStarMatrix \<Rightarrow> DotStarMatrix \<Rightarrow> bool" where
  "unchanged s s' \<longleftrightarrow>
     type s' = type s \<and> matrixWidth s' = matrixWidth s \<and> matrixHeight s' = matrixHeight s \<and>
     tilesX s' = tilesX s \<and> tilesY s' = tilesY s \<and> rotation s' = rotation s \<and>
     remapFn s' = remapFn s \<and> passThruFlag s' = passThruFlag s \<and>
     passThruColor s' = passThruColor s"

text \<open>
  The arithmetic of one level of the layout, on integers: a coordinate counted from the
  far edge (\<open>mirror\<close>), the index in a sequence of lines of length \<open>scale\<close>, every
  line in the same direction or every other line reversed (\<open>lineIndex\<close>), and the two
  together for a grid of \<open>w\<close> by \<open>h\<close> cells (\<open>gridAxes\<close> gives major, minor and
  scale; \<open>gridIndex\<close> the index). The lemmas of section Properties show that the
  resolvers, which compute on machine words, compute these functions wherever the
  coordinates are inside the grid.
\<close>

definition mirror :: "bool \<Rightarrow> int \<Rightarrow> int \<Rightarrow> int" where
  "mirror b n k = (if b then n - 1 - k else k)"

definition lineIndex :: "bool \<Rightarrow> int \<Rightarrow> int \<Rightarrow> int \<Rightarrow> int" where
  "lineIndex zig major scale minor =
     (if zig \<and> odd major then (major + 1) * scale - 1 - minor else major * scale + minor)"

definition gridAxes :: "bool \<Rightarrow> bool \<Rightarrow> bool \<Rightarrow> int \<Rightarrow> int \<Rightarrow> int \<Rightarrow> int \<Rightarrow> int \<times> int \<times> int" where
  "gridAxes right bottom cols w h x y =
     (if cols then (mirror right w x, mirror bottom h y, h)
      else (mirror bottom h y, mirror right w x, w))"

definition gridIndex :: "bool \<Rightarrow> bool \<Rightarrow> bool \<Rightarrow> bool \<Rightarrow> int \<Rightarrow> int \<Rightarrow> int \<Rightarrow> int \<Rightarrow> int" where
  "gridIndex right bottom cols zig w h x y =
     (case gridAxes right bottom cols w h x y of
        (major, minor, scale) \<Rightarrow> lineIndex zig major scale minor)"

text \<open>Reading a triple of 16-bit words.\<close>

definition uint3 :: "uint16_t \<times> uint16_t \<times> uint16_t \<Rightarrow> int \<times> int \<times> int" where
  "uint3 t = (case t of (a, b, c) \<Rightarrow> (uint a, uint b, uint c))"

text \<open>
  What the constructors and \<^verbatim>\<open>setRotation\<close> establish. \<open>rotated\<close>: the rotation is one
  of the four and the current canvas is the unrotated one, with its sides exchanged for
  the odd rotations. \<open>geometry\<close>: the tile is at least 1x1 and the unrotated canvas is
  the tile (single matrix) or the grid of tiles. \<open>configuration\<close>: both, and no remap
  function. \<open>element_count\<close> is the number of pixels of the configuration.
\<close>

definition rotated :: "DotStarMatrix \<Rightarrow> bool" where
  "rotated s \<longleftrightarrow>
     rotation s < 4 \<and>
     (if rotation s = 1 \<or> rotation s = 3
      then width' s = HEIGHT s \<and> height' s = WIDTH s
      else width' s = WIDTH s \<and> height' s = HEIGHT s)"

definition geometry :: "DotStarMatrix \<Rightarrow> bool" where
  "geometry s \<longleftrightarrow>
     matrixWidth s \<noteq> 0 \<and> matrixHeight s \<noteq> 0 \<and>
     (tilesX s = 0 \<and> tilesY s = 0 \<and>
      sint (WIDTH s) = uint (matrixWidth s) \<and> sint (HEIGHT s) = uint (matrixHeight s) \<or>
      sint (WIDTH s) = uint (matrixWidth s) * uint (tilesX s) \<and>
      sint (HEIGHT s) = uint (matrixHeight s) * uint (tilesY s))"

definition configuration :: "DotStarMatrix \<Rightarrow> bool" where
  "configuration s \<longleftrightarrow> geometry s \<and> rotated s \<and> remapFn s = None"

definition element_count :: "DotStarMatrix \<Rightarrow> int" where
  "element_count s =
     (if tilesX s = 0 \<and> tilesY s = 0 then uint (matrixWidth s) * uint (matrixHeight s)
      else uint (matrixWidth s) * uint (matrixHeight s) * uint (tilesX s) * uint (tilesY s))"

text \<open>
  The integer layout with the flags of an object: the pixel within its tile for a given
  corner, the tile within the display, and the corner the pixels of a tile get.
\<close>

definition pixelGrid :: "DotStarMatrix \<Rightarrow> uint8_t \<Rightarrow> int \<Rightarrow> int \<Rightarrow> int" where
  "pixelGrid s corner lx ly =
     gridIndex (corner AND DS_MATRIX_RIGHT \<noteq> 0) (corner AND DS_MATRIX_BOTTOM \<noteq> 0)
       (type s AND DS_MATRIX_AXIS \<noteq> DS_MATRIX_ROWS)
       (type s AND DS_MATRIX_SEQUENCE \<noteq> DS_MATRIX_PROGRESSIVE)
       (uint (matrixWidth s)) (uint (matrixHeight s)) lx ly"

definition tileGrid :: "DotStarMatrix \<Rightarrow> int \<Rightarrow> int \<Rightarrow> int" where
  "tileGrid s tc tr =
     gridIndex (type s AND DS_TILE_RIGHT \<noteq> 0) (type s AND DS_TILE_BOTTOM \<noteq> 0)
       (type s AND DS_TILE_AXIS \<noteq> DS_TILE_ROWS)
       (type s AND DS_TILE_SEQUENCE \<noteq> DS_TILE_PROGRESSIVE)
       (uint (tilesX s)) (uint (tilesY s)) tc tr"

definition tileCorner :: "DotStarMatrix \<Rightarrow> int \<Rightarrow> int \<Rightarrow> uint8_t" where
  "tileCorner s tc tr =
     (if type s AND DS_TILE_SEQUENCE \<noteq> DS_TILE_PROGRESSIVE \<and>
         odd (fst (gridAxes (type s AND DS_TILE_RIGHT \<noteq> 0) (type s AND DS_TILE_BOTTOM \<noteq> 0)
                (type s AND DS_TILE_AXIS \<noteq> DS_TILE_ROWS) (uint (tilesX s)) (uint (tilesY s)) tc tr))
      then (type s AND DS_MATRIX_CORNER) XOR DS_MATRIX_CORNER
      else type s AND DS_MATRIX_CORNER)"

text \<open>
  What \<^verbatim>\<open>drawPixel\<close> has in hand, with no remap function, when it reaches the line
  order of the pixels: \<^verbatim>\<open>tileOffset\<close>, \<^verbatim>\<open>major\<close>, \<^verbatim>\<open>minor\<close> and \<^verbatim>\<open>majorScale\<close>.
\<close>

definition pixelLine ::
  "DotStarMatrix \<Rightarrow> int16_t \<Rightarrow> int16_t \<Rightarrow> (int \<times> uint16_t \<times> uint16_t \<times> uint16_t) option" where
  "pixelLine s x y =
     (case unrotate s x y of (a, b) \<Rightarrow>
        if tilesX s \<noteq> 0
        then map_option (\<lambda>(tileOffset, corner, lx, ly). (tileOffset, pixelAxes s corner lx ly))
               (tileResolve s (type s AND DS_MATRIX_CORNER) a b)
        else Some (0, pixelAxes s (type s AND DS_MATRIX_CORNER) a b))"

text \<open>The same object with the pixel-sequence bit set: lines in zigzag order.\<close>

definition zigzagged :: "DotStarMatrix \<Rightarrow> DotStarMatrix" where
  "zigzagged s = s\<lparr>type := type s OR DS_MATRIX_ZIGZAG\<rparr>"

lemmas model_defs =
  drawPixel_def drawIndex_def offsets_def unrotate_def clipped_def tileResolve_def
  pixelResolve_def pixelAxes_def setPixelColor_def

lemmas wide_defs = matrix300x2_def matrix300x1_def Adafruit_DotStarMatrix_single_def

section \<open>Properties\<close>

subsection \<open>Sixteen-bit arithmetic\<close>

lemma uint16_succ: "(i :: uint16_t) < n \<Longrightarrow> unat (i + 1) = Suc (unat i)"
proof -
  assume "i < n"
  then have "unat i < unat n" by (simp add: word_less_nat_alt)
  moreover have "unat n < 2 ^ 16" using unsigned_less [of n, where ?'a = nat] by simp
  ultimately have "unat i + unat (1 :: 16 word) < 2 ^ LENGTH(16)" by simp
  then have "unat (i + 1) = unat i + unat (1 :: 16 word)" by (simp only: unat_add_lem)
  then show ?thesis by simp
qed

lemma u16_of_int: "0 \<le> k \<Longrightarrow> k < 65536 \<Longrightarrow> uint (word_of_int k :: 16 word) = k"
  by (simp add: uint_word_of_int)

lemma s16_of_int: "- 32768 \<le> k \<Longrightarrow> k < 32768 \<Longrightarrow> sint (word_of_int k :: 16 word) = k"
  by (simp add: sint_sbintrunc' signed_take_bit_int_eq_self)

lemma sint16_range: "- 32768 \<le> sint (x :: 16 word) \<and> sint x < 32768"
  using sint_greater_eq [of x] sint_less [of x] by simp

lemma uint16_of_sint: "0 \<le> sint (x :: 16 word) \<Longrightarrow> uint x = sint x"
proof -
  assume a: "0 \<le> sint x"
  have "uint x = take_bit 16 (sint x)" using uint_sint [of x] by simp
  also have "\<dots> = sint x"
    using a sint16_range [of x] by (simp add: take_bit_int_eq_self)
  finally show ?thesis .
qed

lemma uint8_range: "0 \<le> uint (w :: 8 word) \<and> uint w < 256"
  using uint_lt2p [of w] by simp

lemma uint_ucast_8_16: "uint (ucast (w :: 8 word) :: 16 word) = uint w"
  by (simp add: uint_up_ucast is_up)

lemma and1_odd: "(w AND 1 \<noteq> 0) = odd (uint (w :: 16 word))"
  by (simp add: and_one_eq word_uint_eq_iff uint_mod_distrib even_iff_mod_2_eq_zero)

lemma sdiv_nonneg: "0 \<le> (a :: int) \<Longrightarrow> 0 < b \<Longrightarrow> a sdiv b = a div b"
  by (simp add: signed_divide_int_def sgn_if)

lemma uint8_zero: "(w :: 8 word) \<noteq> 0 \<longleftrightarrow> 0 < uint w"
  by (metis uint_0_iff uint_ge_0 order_less_le)


subsection \<open>One level of the layout is a bijection onto its index range\<close>

lemma mirror_range: "0 \<le> k \<Longrightarrow> k < n \<Longrightarrow> 0 \<le> mirror b n k \<and> mirror b n k < n"
  by (simp add: mirror_def)

lemma mirror_inj: "mirror b n k = mirror b n k' \<Longrightarrow> k = k'"
  by (simp add: mirror_def split: if_splits)

lemma quot_rem_unique:
  fixes a a' r r' n :: int
  assumes "0 \<le> r" "r < n" "0 \<le> r'" "r' < n" and eq: "a * n + r = a' * n + r'"
  shows "a = a' \<and> r = r'"
proof -
  have "(a * n + r) div n = a" "(a' * n + r') div n = a'"
    using assms(1-4) by simp_all
  with eq have "a = a'" by simp
  with eq show ?thesis by simp
qed

lemma quot_rem_bound:
  fixes a r m n :: int
  assumes "0 \<le> a" "a < m" "0 \<le> r" "r < n"
  shows "0 \<le> a * n + r \<and> a * n + r < m * n"
proof -
  have n: "0 \<le> n" using assms(3,4) by simp
  have "a * n + r < (a + 1) * n" using assms(4) by (simp add: algebra_simps)
  also have "\<dots> \<le> m * n" using assms(2) n by (intro mult_right_mono) simp_all
  finally have "a * n + r < m * n" .
  moreover have "0 \<le> a * n" using assms(1) n by simp
  ultimately show ?thesis using assms(3) by simp
qed

lemma lineIndex_alt:
  "lineIndex zig major scale minor = major * scale + mirror (zig \<and> odd major) scale minor"
  by (simp add: lineIndex_def mirror_def algebra_simps)

lemma lineIndex_range:
  assumes "0 \<le> major" "major < n" "0 \<le> minor" "minor < scale"
  shows "0 \<le> lineIndex zig major scale minor \<and> lineIndex zig major scale minor < n * scale"
  unfolding lineIndex_alt
  using quot_rem_bound [OF assms(1,2)] mirror_range [OF assms(3,4)] by blast

lemma lineIndex_inj:
  assumes "0 \<le> minor" "minor < scale" "0 \<le> minor'" "minor' < scale"
    and "lineIndex zig major scale minor = lineIndex zig major' scale minor'"
  shows "major = major' \<and> minor = minor'"
proof -
  let ?r = "mirror (zig \<and> odd major) scale minor" and ?r' = "mirror (zig \<and> odd major') scale minor'"
  have "major * scale + ?r = major' * scale + ?r'"
    using assms(5) by (simp only: lineIndex_alt)
  moreover have "0 \<le> ?r \<and> ?r < scale" "0 \<le> ?r' \<and> ?r' < scale"
    using mirror_range assms(1-4) by simp_all
  ultimately have m: "major = major'" and r: "?r = ?r'"
    using quot_rem_unique [of ?r scale ?r' major major'] by simp_all
  from r m have "minor = minor'" using mirror_inj by simp
  with m show ?thesis by simp
qed

lemma gridIndex_range:
  assumes "0 \<le> x" "x < w" "0 \<le> y" "y < h"
  shows "0 \<le> gridIndex right bottom cols zig w h x y \<and>
         gridIndex right bottom cols zig w h x y < w * h"
proof -
  have mx: "0 \<le> mirror right w x" "mirror right w x < w"
    using mirror_range [OF assms(1,2)] by simp_all
  have my: "0 \<le> mirror bottom h y" "mirror bottom h y < h"
    using mirror_range [OF assms(3,4)] by simp_all
  show ?thesis
  proof (cases cols)
    case True
    then show ?thesis
      using lineIndex_range [OF mx my, of zig] by (simp add: gridIndex_def gridAxes_def)
  next
    case False
    then show ?thesis
      using lineIndex_range [OF my mx, of zig]
      by (simp add: gridIndex_def gridAxes_def mult.commute)
  qed
qed

lemma gridIndex_inj:
  assumes "0 \<le> x" "x < w" "0 \<le> y" "y < h" "0 \<le> x'" "x' < w" "0 \<le> y'" "y' < h"
    and eq: "gridIndex right bottom cols zig w h x y = gridIndex right bottom cols zig w h x' y'"
  shows "x = x' \<and> y = y'"
proof (cases cols)
  case True
  with eq have "lineIndex zig (mirror right w x) h (mirror bottom h y) =
      lineIndex zig (mirror right w x') h (mirror bottom h y')"
    by (simp add: gridIndex_def gridAxes_def)
  then have "mirror right w x = mirror right w x' \<and> mirror bottom h y = mirror bottom h y'"
    using mirror_range assms(3,4,7,8) by (intro lineIndex_inj [of _ h _ zig]) simp_all
  then show ?thesis using mirror_inj by blast
next
  case False
  with eq have "lineIndex zig (mirror bottom h y) w (mirror right w x) =
      lineIndex zig (mirror bottom h y') w (mirror right w x')"
    by (simp add: gridIndex_def gridAxes_def)
  then have "mirror bottom h y = mirror bottom h y' \<and> mirror right w x = mirror right w x'"
    using mirror_range assms(1,2,5,6) by (intro lineIndex_inj [of _ w _ zig]) simp_all
  then show ?thesis using mirror_inj by blast
qed


subsection \<open>The resolvers compute the integer layout\<close>

lemma pixelAxes_int:
  assumes "0 \<le> sint x" "sint x < uint (matrixWidth s)" "0 \<le> sint y" "sint y < uint (matrixHeight s)"
  shows "uint3 (pixelAxes s c x y) =
           gridAxes (c AND DS_MATRIX_RIGHT \<noteq> 0) (c AND DS_MATRIX_BOTTOM \<noteq> 0)
             (type s AND DS_MATRIX_AXIS \<noteq> DS_MATRIX_ROWS)
             (uint (matrixWidth s)) (uint (matrixHeight s)) (sint x) (sint y)"
proof -
  have x: "uint x = sint x" and y: "uint y = sint y"
    using assms(1,3) by (simp_all add: uint16_of_sint)
  have w: "uint (matrixWidth s) < 256" and h: "uint (matrixHeight s) < 256"
    using uint8_range by simp_all
  have fx: "uint (word_of_int (uint (matrixWidth s) - 1 - sint x) :: uint16_t) =
      uint (matrixWidth s) - 1 - sint x"
    using assms(1,2) w by (intro u16_of_int) simp_all
  have fy: "uint (word_of_int (uint (matrixHeight s) - 1 - sint y) :: uint16_t) =
      uint (matrixHeight s) - 1 - sint y"
    using assms(3,4) h by (intro u16_of_int) simp_all
  have fx': "uint (ucast (matrixWidth s) - 1 - x :: uint16_t) = uint (matrixWidth s) - 1 - sint x"
    using fx by simp
  have fy': "uint (ucast (matrixHeight s) - 1 - y :: uint16_t) = uint (matrixHeight s) - 1 - sint y"
    using fy by simp
  show ?thesis
    by (simp add: pixelAxes_def uint3_def gridAxes_def mirror_def Let_def x y fx' fy' uint_ucast_8_16)
qed

lemma pixelResolve_int:
  assumes "0 \<le> sint x" "sint x < uint (matrixWidth s)" "0 \<le> sint y" "sint y < uint (matrixHeight s)"
  shows "pixelResolve s c x y =
           gridIndex (c AND DS_MATRIX_RIGHT \<noteq> 0) (c AND DS_MATRIX_BOTTOM \<noteq> 0)
             (type s AND DS_MATRIX_AXIS \<noteq> DS_MATRIX_ROWS)
             (type s AND DS_MATRIX_SEQUENCE \<noteq> DS_MATRIX_PROGRESSIVE)
             (uint (matrixWidth s)) (uint (matrixHeight s)) (sint x) (sint y)"
proof -
  obtain major minor scale where p: "pixelAxes s c x y = (major, minor, scale)"
    by (cases "pixelAxes s c x y")
  have g: "gridAxes (c AND DS_MATRIX_RIGHT \<noteq> 0) (c AND DS_MATRIX_BOTTOM \<noteq> 0)
             (type s AND DS_MATRIX_AXIS \<noteq> DS_MATRIX_ROWS)
             (uint (matrixWidth s)) (uint (matrixHeight s)) (sint x) (sint y) =
           (uint major, uint minor, uint scale)"
    using pixelAxes_int [OF assms, of c] p by (simp add: uint3_def)
  show ?thesis
    by (simp add: pixelResolve_def gridIndex_def p g lineIndex_def and1_odd)
qed

lemma int_div_range:
  fixes a b n :: int
  assumes "0 \<le> a" "a < b * n" "0 < b"
  shows "0 \<le> a div b \<and> a div b < n"
proof -
  have "b * (a div b) + a mod b = a" by simp
  moreover have "0 \<le> a mod b" using assms(3) by simp
  ultimately have "b * (a div b) < b * n" using assms(2) by linarith
  then have "a div b < n" using assms(3) by (simp add: mult_less_cancel_left_pos)
  moreover have "0 \<le> a div b" using assms(1,3) by (simp add: pos_imp_zdiv_nonneg_iff)
  ultimately show ?thesis by simp
qed

lemma tileResolve_int:
  assumes W: "matrixWidth s \<noteq> 0" and H: "matrixHeight s \<noteq> 0"
    and X: "0 \<le> sint x" "sint x < uint (matrixWidth s) * uint (tilesX s)"
    and Y: "0 \<le> sint y" "sint y < uint (matrixHeight s) * uint (tilesY s)"
  shows "tileResolve s c x y =
     Some (gridIndex (type s AND DS_TILE_RIGHT \<noteq> 0) (type s AND DS_TILE_BOTTOM \<noteq> 0)
             (type s AND DS_TILE_AXIS \<noteq> DS_TILE_ROWS) (type s AND DS_TILE_SEQUENCE \<noteq> DS_TILE_PROGRESSIVE)
             (uint (tilesX s)) (uint (tilesY s))
             (sint x div uint (matrixWidth s)) (sint y div uint (matrixHeight s))
           * uint (matrixWidth s) * uint (matrixHeight s),
           (if type s AND DS_TILE_SEQUENCE \<noteq> DS_TILE_PROGRESSIVE \<and>
               odd (fst (gridAxes (type s AND DS_TILE_RIGHT \<noteq> 0) (type s AND DS_TILE_BOTTOM \<noteq> 0)
                      (type s AND DS_TILE_AXIS \<noteq> DS_TILE_ROWS) (uint (tilesX s)) (uint (tilesY s))
                      (sint x div uint (matrixWidth s)) (sint y div uint (matrixHeight s))))
            then c XOR DS_MATRIX_CORNER else c),
           word_of_int (sint x mod uint (matrixWidth s)),
           word_of_int (sint y mod uint (matrixHeight s)))"
proof -
  define Wd Hd NX NY where "Wd = uint (matrixWidth s)" and "Hd = uint (matrixHeight s)"
    and "NX = uint (tilesX s)" and "NY = uint (tilesY s)"
  define tc tr where "tc = sint x div Wd" and "tr = sint y div Hd"
  have Wd: "0 < Wd" and Hd: "0 < Hd"
    using W H by (simp_all add: Wd_def Hd_def uint8_zero)
  have NX: "NX < 256" and NY: "NY < 256"
    using uint8_range by (simp_all add: NX_def NY_def)
  have tc: "0 \<le> tc" "tc < NX" and tr: "0 \<le> tr" "tr < NY"
    using int_div_range [OF X(1) _ Wd, of NX] int_div_range [OF Y(1) _ Hd, of NY] X(2) Y(2)
    by (simp_all add: tc_def tr_def Wd_def Hd_def NX_def NY_def)
  define minor0 major0 :: uint16_t
    where "minor0 = word_of_int (sint x sdiv Wd)" and "major0 = word_of_int (sint y sdiv Hd)"
  have minor0: "uint minor0 = tc" and major0: "uint major0 = tr"
    using tc tr NX NY X(1) Y(1) Wd Hd
    by (simp_all add: minor0_def major0_def sdiv_nonneg tc_def [symmetric] tr_def [symmetric] u16_of_int)
  define x1 y1 :: int16_t
    where "x1 = word_of_int (sint x - uint minor0 * Wd)"
      and "y1 = word_of_int (sint y - uint major0 * Hd)"
  have x1: "x1 = word_of_int (sint x mod Wd)" and y1: "y1 = word_of_int (sint y mod Hd)"
    unfolding x1_def y1_def minor0 major0 tc_def tr_def
    by (simp_all only: minus_div_mult_eq_mod)
  define minor1 major1 :: uint16_t
    where "minor1 = (if type s AND DS_TILE_RIGHT \<noteq> 0 then word_of_int (NX - 1 - uint minor0) else minor0)"
      and "major1 = (if type s AND DS_TILE_BOTTOM \<noteq> 0 then word_of_int (NY - 1 - uint major0) else major0)"
  have minor1: "uint minor1 = mirror (type s AND DS_TILE_RIGHT \<noteq> 0) NX tc"
    and major1: "uint major1 = mirror (type s AND DS_TILE_BOTTOM \<noteq> 0) NY tr"
    unfolding minor1_def major1_def minor0 major0 mirror_def
    using tc tr NX NY by (simp_all only: u16_of_int minor0 major0 split: if_splits) auto
  define axes :: "uint16_t \<times> uint16_t \<times> uint16_t"
    where "axes = (if type s AND DS_TILE_AXIS = DS_TILE_ROWS
                   then (major1, minor1, ucast (tilesX s)) else (minor1, major1, ucast (tilesY s)))"
  define major minor scale where "major = fst axes" and "minor = fst (snd axes)"
    and "scale = snd (snd axes)"
  let ?zig = "type s AND DS_TILE_SEQUENCE \<noteq> DS_TILE_PROGRESSIVE"
  let ?axes = "gridAxes (type s AND DS_TILE_RIGHT \<noteq> 0) (type s AND DS_TILE_BOTTOM \<noteq> 0)
                 (type s AND DS_TILE_AXIS \<noteq> DS_TILE_ROWS) NX NY tc tr"
  let ?index = "gridIndex (type s AND DS_TILE_RIGHT \<noteq> 0) (type s AND DS_TILE_BOTTOM \<noteq> 0)
                 (type s AND DS_TILE_AXIS \<noteq> DS_TILE_ROWS) ?zig NX NY tc tr"
  have axes: "?axes = (uint major, uint minor, uint scale)"
    by (simp add: major_def minor_def scale_def axes_def gridAxes_def minor1 major1
        uint_ucast_8_16 NX_def NY_def)
  have index: "?index = lineIndex ?zig (uint major) (uint scale) (uint minor)"
    by (simp add: gridIndex_def axes)
  have range: "0 \<le> ?index" "?index < 65536"
  proof -
    have "NX * NY \<le> 255 * 255"
      using NX NY tc tr by (intro mult_mono) simp_all
    with gridIndex_range [OF tc tr, of "type s AND DS_TILE_RIGHT \<noteq> 0"
        "type s AND DS_TILE_BOTTOM \<noteq> 0" "type s AND DS_TILE_AXIS \<noteq> DS_TILE_ROWS" ?zig]
    show "0 \<le> ?index" "?index < 65536" by simp_all
  qed
  define ct :: "uint8_t \<times> uint16_t"
    where "ct = (if type s AND DS_TILE_SEQUENCE = DS_TILE_PROGRESSIVE
                 then (c, word_of_int (uint major * uint scale + uint minor))
                 else if major AND 1 \<noteq> 0
                 then (c XOR DS_MATRIX_CORNER, word_of_int ((uint major + 1) * uint scale - 1 - uint minor))
                 else (c, word_of_int (uint major * uint scale + uint minor)))"
  have ct: "ct = (if ?zig \<and> odd (uint major) then c XOR DS_MATRIX_CORNER else c, word_of_int ?index)"
    by (simp add: ct_def index lineIndex_def and1_odd)
  have tile: "uint (snd ct) = ?index"
    using range by (simp only: ct snd_conv u16_of_int)
  have corner: "fst ct = (if ?zig \<and> odd (fst ?axes) then c XOR DS_MATRIX_CORNER else c)"
    by (simp only: ct axes fst_conv)
  have "tileResolve s c x y = Some (uint (snd ct) * Wd * Hd, fst ct, x1, y1)"
    unfolding ct_def major_def minor_def scale_def axes_def minor1_def major1_def x1_def y1_def
      minor0_def major0_def Wd_def Hd_def NX_def NY_def
    by (simp add: tileResolve_def Let_def split_def W H)
  then show ?thesis
    unfolding tile corner x1 y1 by (simp only: tc_def tr_def Wd_def Hd_def NX_def NY_def)
qed


subsection \<open>Rotation, and the index of a draw inside the canvas\<close>

lemma rotation_cases:
  assumes "rotation s < 4"
  obtains "rotation s = 0" | "rotation s = 1" | "rotation s = 2" | "rotation s = 3"
proof -
  have "unat (rotation s) < 4" using assms by (simp add: word_less_nat_alt)
  then have "unat (rotation s) = 0 \<or> unat (rotation s) = 1 \<or> unat (rotation s) = 2 \<or>
      unat (rotation s) = 3" by arith
  then have "rotation s = 0 \<or> rotation s = 1 \<or> rotation s = 2 \<or> rotation s = 3"
    by (simp add: word_unat_eq_iff)
  with that show thesis by blast
qed

lemma unrotate_inj: "unrotate s x y = unrotate s x' y' \<Longrightarrow> x = x' \<and> y = y'"
  by (simp add: unrotate_def split: if_splits)

lemma unrotate_inside:
  assumes r: "rotated s" and c: "\<not> clipped s x y"
    and W: "0 \<le> sint (WIDTH s)" and H: "0 \<le> sint (HEIGHT s)"
  shows "0 \<le> sint (fst (unrotate s x y)) \<and> sint (fst (unrotate s x y)) < sint (WIDTH s) \<and>
         0 \<le> sint (snd (unrotate s x y)) \<and> sint (snd (unrotate s x y)) < sint (HEIGHT s)"
proof -
  have b: "0 \<le> sint x" "0 \<le> sint y" "sint x < sint (width' s)" "sint y < sint (height' s)"
    using c by (simp_all add: clipped_def)
  have lim: "sint (WIDTH s) < 32768" "sint (HEIGHT s) < 32768"
    using sint16_range by simp_all
  have m: "sint (word_of_int (n - 1 - k) :: int16_t) = n - 1 - k"
    if "0 \<le> k" "k < n" "n < 32768" for n k :: int
    using that by (intro s16_of_int) simp_all
  from r have "rotation s < 4" by (simp add: rotated_def)
  then show ?thesis
  proof (cases rule: rotation_cases)
    case 1
    with r b show ?thesis by (simp add: rotated_def unrotate_def)
  next
    case 2
    with r b have "sint y < sint (WIDTH s)" "sint x < sint (HEIGHT s)" by (simp_all add: rotated_def)
    with 2 b m [of "sint y" "sint (WIDTH s)"] lim show ?thesis by (simp add: unrotate_def)
  next
    case 3
    with r b have "sint x < sint (WIDTH s)" "sint y < sint (HEIGHT s)" by (simp_all add: rotated_def)
    with 3 b m [of "sint x" "sint (WIDTH s)"] m [of "sint y" "sint (HEIGHT s)"] lim
    show ?thesis by (simp add: unrotate_def)
  next
    case 4
    with r b have "sint y < sint (WIDTH s)" "sint x < sint (HEIGHT s)" by (simp_all add: rotated_def)
    with 4 b m [of "sint x" "sint (HEIGHT s)"] lim show ?thesis by (simp add: unrotate_def)
  qed
qed

lemma offsets_untiled:
  assumes "remapFn s = None" "tilesX s = 0"
    and "0 \<le> sint a" "sint a < uint (matrixWidth s)" "0 \<le> sint b" "sint b < uint (matrixHeight s)"
  shows "offsets s a b = Some (0, pixelGrid s (type s AND DS_MATRIX_CORNER) (sint a) (sint b))"
  using assms(1,2) pixelResolve_int [OF assms(3-6)]
  by (simp add: offsets_def pixelGrid_def Let_def)

lemma offsets_tiled:
  assumes "remapFn s = None" "tilesX s \<noteq> 0"
    and W: "matrixWidth s \<noteq> 0" and H: "matrixHeight s \<noteq> 0"
    and X: "0 \<le> sint a" "sint a < uint (matrixWidth s) * uint (tilesX s)"
    and Y: "0 \<le> sint b" "sint b < uint (matrixHeight s) * uint (tilesY s)"
  shows "offsets s a b =
     Some (tileGrid s (sint a div uint (matrixWidth s)) (sint b div uint (matrixHeight s))
             * uint (matrixWidth s) * uint (matrixHeight s),
           pixelGrid s (tileCorner s (sint a div uint (matrixWidth s)) (sint b div uint (matrixHeight s)))
             (sint a mod uint (matrixWidth s)) (sint b mod uint (matrixHeight s)))"
proof -
  have Wd: "0 < uint (matrixWidth s)" and Hd: "0 < uint (matrixHeight s)"
    using W H by (simp_all add: uint8_zero)
  have lim: "uint (matrixWidth s) < 256" "uint (matrixHeight s) < 256"
    using uint8_range by simp_all
  let ?lx = "sint a mod uint (matrixWidth s)" and ?ly = "sint b mod uint (matrixHeight s)"
  have lx: "0 \<le> ?lx" "?lx < uint (matrixWidth s)" and ly: "0 \<le> ?ly" "?ly < uint (matrixHeight s)"
    using Wd Hd by simp_all
  have sx: "sint (word_of_int ?lx :: int16_t) = ?lx" and sy: "sint (word_of_int ?ly :: int16_t) = ?ly"
    using lx ly lim by (simp_all add: s16_of_int)
  have p: "pixelResolve s c (word_of_int ?lx) (word_of_int ?ly) = pixelGrid s c ?lx ?ly" for c
    using pixelResolve_int [of "word_of_int ?lx" s "word_of_int ?ly" c] lx ly
    by (simp only: sx sy pixelGrid_def)
  show ?thesis
    using assms(1,2)
    by (simp add: offsets_def Let_def tileResolve_int [OF W H X Y] p tileGrid_def tileCorner_def)
qed

lemma sint_inj16: "sint (a :: int16_t) = sint b \<Longrightarrow> a = b"
  by (simp add: signed_word_eqI)

lemma pixelGrid_range:
  assumes "0 \<le> lx" "lx < uint (matrixWidth s)" "0 \<le> ly" "ly < uint (matrixHeight s)"
  shows "0 \<le> pixelGrid s c lx ly \<and> pixelGrid s c lx ly < uint (matrixWidth s) * uint (matrixHeight s)"
  unfolding pixelGrid_def using assms by (rule gridIndex_range)

lemma pixelGrid_inj:
  assumes "0 \<le> lx" "lx < uint (matrixWidth s)" "0 \<le> ly" "ly < uint (matrixHeight s)"
    and "0 \<le> lx'" "lx' < uint (matrixWidth s)" "0 \<le> ly'" "ly' < uint (matrixHeight s)"
    and "pixelGrid s c lx ly = pixelGrid s c lx' ly'"
  shows "lx = lx' \<and> ly = ly'"
  using assms unfolding pixelGrid_def by (rule gridIndex_inj)

lemma tileGrid_range:
  assumes "0 \<le> tc" "tc < uint (tilesX s)" "0 \<le> tr" "tr < uint (tilesY s)"
  shows "0 \<le> tileGrid s tc tr \<and> tileGrid s tc tr < uint (tilesX s) * uint (tilesY s)"
  unfolding tileGrid_def using assms by (rule gridIndex_range)

lemma tileGrid_inj:
  assumes "0 \<le> tc" "tc < uint (tilesX s)" "0 \<le> tr" "tr < uint (tilesY s)"
    and "0 \<le> tc'" "tc' < uint (tilesX s)" "0 \<le> tr'" "tr' < uint (tilesY s)"
    and "tileGrid s tc tr = tileGrid s tc' tr'"
  shows "tc = tc' \<and> tr = tr'"
  using assms unfolding tileGrid_def by (rule gridIndex_inj)

lemma drawIndex_untiled:
  assumes cfg: "configuration s" and t: "tilesX s = 0" and c: "\<not> clipped s x y"
  shows "tilesY s = 0 \<and>
         0 \<le> sint (fst (unrotate s x y)) \<and> sint (fst (unrotate s x y)) < uint (matrixWidth s) \<and>
         0 \<le> sint (snd (unrotate s x y)) \<and> sint (snd (unrotate s x y)) < uint (matrixHeight s) \<and>
         drawIndex s x y =
           Some (pixelGrid s (type s AND DS_MATRIX_CORNER)
                   (sint (fst (unrotate s x y))) (sint (snd (unrotate s x y))))"
proof -
  obtain a b where r: "unrotate s x y = (a, b)" by (cases "unrotate s x y")
  from cfg have g: "geometry s" and rot: "rotated s" and nr: "remapFn s = None"
    by (simp_all add: configuration_def)
  have WH: "0 \<le> sint (WIDTH s)" "0 \<le> sint (HEIGHT s)"
    using g by (auto simp add: geometry_def)
  have inside: "0 \<le> sint a" "sint a < sint (WIDTH s)" "0 \<le> sint b" "sint b < sint (HEIGHT s)"
    using unrotate_inside [OF rot c WH] r by simp_all
  have "sint (WIDTH s) \<noteq> 0" using inside by simp
  with g t have d: "tilesY s = 0" "sint (WIDTH s) = uint (matrixWidth s)"
    "sint (HEIGHT s) = uint (matrixHeight s)"
    by (auto simp add: geometry_def)
  have "offsets s a b = Some (0, pixelGrid s (type s AND DS_MATRIX_CORNER) (sint a) (sint b))"
    using inside d by (intro offsets_untiled [OF nr t]) simp_all
  then show ?thesis using inside d r by (simp add: drawIndex_def)
qed

lemma drawIndex_tiled:
  assumes cfg: "configuration s" and t: "tilesX s \<noteq> 0" and c: "\<not> clipped s x y"
  shows "0 \<le> sint (fst (unrotate s x y)) \<and>
         sint (fst (unrotate s x y)) < uint (matrixWidth s) * uint (tilesX s) \<and>
         0 \<le> sint (snd (unrotate s x y)) \<and>
         sint (snd (unrotate s x y)) < uint (matrixHeight s) * uint (tilesY s) \<and>
         drawIndex s x y =
           Some (tileGrid s (sint (fst (unrotate s x y)) div uint (matrixWidth s))
                   (sint (snd (unrotate s x y)) div uint (matrixHeight s))
                 * uint (matrixWidth s) * uint (matrixHeight s) +
                 pixelGrid s
                   (tileCorner s (sint (fst (unrotate s x y)) div uint (matrixWidth s))
                      (sint (snd (unrotate s x y)) div uint (matrixHeight s)))
                   (sint (fst (unrotate s x y)) mod uint (matrixWidth s))
                   (sint (snd (unrotate s x y)) mod uint (matrixHeight s)))"
proof -
  obtain a b where r: "unrotate s x y = (a, b)" by (cases "unrotate s x y")
  from cfg have g: "geometry s" and rot: "rotated s" and nr: "remapFn s = None"
    by (simp_all add: configuration_def)
  have WH: "0 \<le> sint (WIDTH s)" "0 \<le> sint (HEIGHT s)"
    using g by (auto simp add: geometry_def)
  have inside: "0 \<le> sint a" "sint a < sint (WIDTH s)" "0 \<le> sint b" "sint b < sint (HEIGHT s)"
    using unrotate_inside [OF rot c WH] r by simp_all
  from g t have d: "matrixWidth s \<noteq> 0" "matrixHeight s \<noteq> 0"
    "sint (WIDTH s) = uint (matrixWidth s) * uint (tilesX s)"
    "sint (HEIGHT s) = uint (matrixHeight s) * uint (tilesY s)"
    by (auto simp add: geometry_def)
  have X: "sint a < uint (matrixWidth s) * uint (tilesX s)"
    and Y: "sint b < uint (matrixHeight s) * uint (tilesY s)"
    using inside d by simp_all
  show ?thesis
    using offsets_tiled [OF nr t d(1,2) inside(1) X inside(3) Y] inside(1,3) X Y r
    by (simp add: drawIndex_def)
qed


subsection \<open>The constructors build configurations\<close>

lemma rotated_setRotation: "rotated (setRotation r s)"
proof -
  have "r AND 3 \<le> 3" by (rule word_and_le1)
  then have "r AND 3 < 4" by (simp add: word_le_nat_alt word_less_nat_alt)
  then show ?thesis by (simp add: rotated_def setRotation_def Let_def)
qed

lemma geometry_setRotation: "geometry (setRotation r s) = geometry s"
  by (simp add: geometry_def setRotation_def Let_def)

lemma configuration_setRotation:
  "geometry s \<Longrightarrow> remapFn s = None \<Longrightarrow> configuration (setRotation r s)"
  by (simp add: configuration_def rotated_setRotation geometry_setRotation)
    (simp add: setRotation_def Let_def)

lemma u8_of_int: "0 \<le> k \<Longrightarrow> k < 256 \<Longrightarrow> uint (word_of_int k :: 8 word) = k"
  by (simp add: uint_word_of_int)

lemma geometry_single:
  assumes "1 \<le> w" "w \<le> 255" "1 \<le> h" "h \<le> 255"
  shows "geometry (Adafruit_DotStarMatrix_single w h matrixType ledType pc)"
proof -
  have "uint (word_of_int w :: 8 word) = w" "uint (word_of_int h :: 8 word) = h"
    "sint (word_of_int w :: 16 word) = w" "sint (word_of_int h :: 16 word) = h"
    using assms by (simp_all add: u8_of_int s16_of_int)
  moreover from this(1,2) have "(word_of_int w :: 8 word) \<noteq> 0" "(word_of_int h :: 8 word) \<noteq> 0"
    using assms by (simp_all add: uint8_zero)
  ultimately show ?thesis
    by (simp add: geometry_def Adafruit_DotStarMatrix_single_def)
qed

lemma geometry_tiled:
  assumes "mW \<noteq> 0" "mH \<noteq> 0" "uint mW * uint tX \<le> 32767" "uint mH * uint tY \<le> 32767"
  shows "geometry (Adafruit_DotStarMatrix_tiled mW mH tX tY matrixType ledType pc)"
proof -
  have p: "0 \<le> uint mW * uint tX" "0 \<le> uint mH * uint tY" by simp_all
  have "sint (word_of_int (uint mW * uint tX) :: 16 word) = uint mW * uint tX"
    using p(1) assms(3) by (intro s16_of_int) linarith+
  moreover have "sint (word_of_int (uint mH * uint tY) :: 16 word) = uint mH * uint tY"
    using p(2) assms(4) by (intro s16_of_int) linarith+
  ultimately have "sint (ucast mW * ucast tX :: 16 word) = uint mW * uint tX"
    "sint (ucast mH * ucast tY :: 16 word) = uint mH * uint tY"
    by simp_all
  then show ?thesis
    using assms(1,2) by (simp add: geometry_def Adafruit_DotStarMatrix_tiled_def)
qed

lemma rotated_constructed:
  "rotated (Adafruit_DotStarMatrix_single w h matrixType ledType pc)"
  "rotated (Adafruit_DotStarMatrix_tiled mW mH tX tY matrixType ledType pc)"
  by (simp_all add: rotated_def Adafruit_DotStarMatrix_single_def Adafruit_DotStarMatrix_tiled_def)

lemma configuration_single:
  assumes "1 \<le> w" "w \<le> 255" "1 \<le> h" "h \<le> 255"
  shows "configuration (Adafruit_DotStarMatrix_single w h matrixType ledType pc)"
  using geometry_single [OF assms] rotated_constructed(1)
  by (simp add: configuration_def) (simp add: Adafruit_DotStarMatrix_single_def)

lemma configuration_tiled:
  assumes "mW \<noteq> 0" "mH \<noteq> 0" "uint mW * uint tX \<le> 32767" "uint mH * uint tY \<le> 32767"
  shows "configuration (Adafruit_DotStarMatrix_tiled mW mH tX tY matrixType ledType pc)"
  using geometry_tiled [OF assms] rotated_constructed(2)
  by (simp add: configuration_def) (simp add: Adafruit_DotStarMatrix_tiled_def)

text \<open>The bitbang constructors differ from the others in the pins only.\<close>

lemma bitbang_same:
  "Adafruit_DotStarMatrix_single_bitbang w h d c matrixType ledType pc =
     Adafruit_DotStarMatrix_single w h matrixType ledType pc"
  "Adafruit_DotStarMatrix_tiled_bitbang mW mH tX tY d c matrixType ledType pc =
     Adafruit_DotStarMatrix_tiled mW mH tX tY matrixType ledType pc"
  by (simp_all add: Adafruit_DotStarMatrix_single_bitbang_def Adafruit_DotStarMatrix_single_def
      Adafruit_DotStarMatrix_tiled_bitbang_def Adafruit_DotStarMatrix_tiled_def)

lemma s16_wrapped: "32768 \<le> k \<Longrightarrow> k < 65536 \<Longrightarrow> sint (word_of_int k :: 16 word) < 0"
proof -
  assume a: "32768 \<le> k" "k < 65536"
  have "(word_of_int k :: 16 word) = word_of_int (k - 65536)"
    by (simp add: word_of_int_eq_iff take_bit_eq_mod)
  then have "sint (word_of_int k :: 16 word) = sint (word_of_int (k - 65536) :: 16 word)"
    by (simp only:)
  also have "\<dots> = k - 65536"
    using a by (intro s16_of_int) simp_all
  finally show ?thesis using a by linarith
qed

lemma clipped_negative_canvas:
  assumes "rotated s" "sint (WIDTH s) < 0 \<or> sint (HEIGHT s) < 0"
  shows "clipped s x y"
  using assms by (auto simp add: rotated_def clipped_def split: if_splits)

lemma tiled_too_large_clipped:
  assumes "32767 < uint mW * uint tX \<or> 32767 < uint mH * uint tY"
  shows "clipped (setRotation r (Adafruit_DotStarMatrix_tiled mW mH tX tY matrixType ledType pc)) x y"
proof -
  let ?s = "Adafruit_DotStarMatrix_tiled mW mH tX tY matrixType ledType pc"
  have b: "uint mW * uint tX \<le> 255 * 255" "uint mH * uint tY \<le> 255 * 255"
    using uint8_range [of mW] uint8_range [of mH] uint8_range [of tX] uint8_range [of tY]
    by (intro mult_mono; simp)+
  have "sint (WIDTH ?s) < 0 \<or> sint (HEIGHT ?s) < 0"
    using assms b s16_wrapped [of "uint mW * uint tX"] s16_wrapped [of "uint mH * uint tY"]
    by (auto simp add: Adafruit_DotStarMatrix_tiled_def)
  then have "sint (WIDTH (setRotation r ?s)) < 0 \<or> sint (HEIGHT (setRotation r ?s)) < 0"
    by (simp add: setRotation_def Let_def)
  then show ?thesis by (rule clipped_negative_canvas [OF rotated_setRotation])
qed

lemma element_count_below:
  assumes "geometry s"
  shows "element_count s < 2 ^ 30"
proof -
  have W: "0 \<le> uint (matrixWidth s)" "uint (matrixWidth s) \<le> 255"
    and H: "0 \<le> uint (matrixHeight s)" "uint (matrixHeight s) \<le> 255"
    using uint8_range [of "matrixWidth s"] uint8_range [of "matrixHeight s"] by simp_all
  show ?thesis
  proof (cases "tilesX s = 0 \<and> tilesY s = 0")
    case True
    have "uint (matrixWidth s) * uint (matrixHeight s) \<le> 255 * 255"
      using W H by (intro mult_mono) simp_all
    with True show ?thesis by (simp add: element_count_def)
  next
    case False
    with assms have e: "sint (WIDTH s) = uint (matrixWidth s) * uint (tilesX s)"
      "sint (HEIGHT s) = uint (matrixHeight s) * uint (tilesY s)"
      by (auto simp add: geometry_def)
    have "0 \<le> sint (WIDTH s)" "0 \<le> sint (HEIGHT s)" using e by simp_all
    moreover have "sint (WIDTH s) \<le> 32767" "sint (HEIGHT s) \<le> 32767"
      using sint16_range [of "WIDTH s"] sint16_range [of "HEIGHT s"] by simp_all
    ultimately have "sint (WIDTH s) * sint (HEIGHT s) \<le> 32767 * 32767"
      by (intro mult_mono) simp_all
    moreover have "element_count s = sint (WIDTH s) * sint (HEIGHT s)"
      using False e by (auto simp add: element_count_def algebra_simps)
    ultimately show ?thesis by simp
  qed
qed


text \<open>
  On a display of more than 65536 pixels two draws with different index expressions
  can reach the strip as the same pixel.
\<close>

lemma strip_index_narrowed:
  "\<not> clipped tiles255 509 254 \<and> \<not> clipped tiles255 253 252 \<and>
   drawIndex tiles255 509 254 = Some 130049 \<and> drawIndex tiles255 253 252 = Some 64513 \<and>
   stripIndex 130049 = stripIndex 64513"
  by (simp add: tiles255_def Adafruit_DotStarMatrix_tiled_def model_defs DS_defs stripIndex_def
      signed_divide_int_def)

lemma geometry_tiles1x2: "geometry tiles1x2"
  unfolding tiles1x2_def by (rule geometry_tiled) simp_all

lemma drawPixel_returns:
  assumes "clipped s x y \<or> remapFn s \<noteq> None \<or> tilesX s = 0 \<or>
           matrixWidth s \<noteq> 0 \<and> matrixHeight s \<noteq> 0"
  shows "\<exists>s'. drawPixel g x y color s = Some s'"
  using assms
  by (auto simp add: drawPixel_def drawIndex_def offsets_def tileResolve_def Let_def split_def
      split: option.splits)

subsection \<open>What the resolvers read\<close>

text \<open>Each resolver depends on the fields it reads only.\<close>

lemma tileResolve_cong:
  assumes "type s' = type s" "matrixWidth s' = matrixWidth s" "matrixHeight s' = matrixHeight s"
    "tilesX s' = tilesX s" "tilesY s' = tilesY s"
  shows "tileResolve s' c a b = tileResolve s c a b"
  unfolding tileResolve_def assms ..

lemma pixelAxes_cong:
  assumes "type s' = type s" "matrixWidth s' = matrixWidth s" "matrixHeight s' = matrixHeight s"
  shows "pixelAxes s' c a b = pixelAxes s c a b"
  unfolding pixelAxes_def assms ..

lemma pixelResolve_cong:
  assumes "type s' = type s" "matrixWidth s' = matrixWidth s" "matrixHeight s' = matrixHeight s"
  shows "pixelResolve s' c a b = pixelResolve s c a b"
  unfolding pixelResolve_def pixelAxes_cong [OF assms] assms ..

lemma offsets_cong:
  assumes "type s' = type s" "matrixWidth s' = matrixWidth s" "matrixHeight s' = matrixHeight s"
    "tilesX s' = tilesX s" "tilesY s' = tilesY s" "remapFn s' = remapFn s"
  shows "offsets s' a b = offsets s a b"
  unfolding offsets_def tileResolve_cong [OF assms(1-5)] pixelResolve_cong [OF assms(1-3)] assms ..

lemma unrotate_cong:
  assumes "rotation s' = rotation s" "WIDTH s' = WIDTH s" "HEIGHT s' = HEIGHT s"
  shows "unrotate s' a b = unrotate s a b"
  unfolding unrotate_def assms ..

lemma drawIndex_cong:
  assumes "type s' = type s" "matrixWidth s' = matrixWidth s" "matrixHeight s' = matrixHeight s"
    "tilesX s' = tilesX s" "tilesY s' = tilesY s" "remapFn s' = remapFn s"
    "rotation s' = rotation s" "WIDTH s' = WIDTH s" "HEIGHT s' = HEIGHT s"
  shows "drawIndex s' a b = drawIndex s a b"
  unfolding drawIndex_def offsets_cong [OF assms(1-6)] unrotate_cong [OF assms(7-9)] ..


subsection \<open>Setting the pixel-sequence bit\<close>

lemma zigzag_bits:
  fixes t :: uint8_t
  shows "(t OR DS_MATRIX_ZIGZAG) AND DS_MATRIX_CORNER = t AND DS_MATRIX_CORNER"
    "(t OR DS_MATRIX_ZIGZAG) AND DS_MATRIX_AXIS = t AND DS_MATRIX_AXIS"
    "(t OR DS_MATRIX_ZIGZAG) AND DS_TILE_RIGHT = t AND DS_TILE_RIGHT"
    "(t OR DS_MATRIX_ZIGZAG) AND DS_TILE_BOTTOM = t AND DS_TILE_BOTTOM"
    "(t OR DS_MATRIX_ZIGZAG) AND DS_TILE_AXIS = t AND DS_TILE_AXIS"
    "(t OR DS_MATRIX_ZIGZAG) AND DS_TILE_SEQUENCE = t AND DS_TILE_SEQUENCE"
    "(t OR DS_MATRIX_ZIGZAG) AND DS_MATRIX_SEQUENCE \<noteq> DS_MATRIX_PROGRESSIVE"
  by (simp_all add: DS_defs bit.conj_disj_distrib2)

lemma zigzagged_tileResolve: "tileResolve (zigzagged s) c a b = tileResolve s c a b"
  by (simp add: tileResolve_def zigzagged_def zigzag_bits Let_def)

lemma zigzagged_pixelAxes: "pixelAxes (zigzagged s) c a b = pixelAxes s c a b"
  by (simp add: pixelAxes_def zigzagged_def zigzag_bits Let_def)

lemma zigzagged_unrotate: "unrotate (zigzagged s) x y = unrotate s x y"
  by (rule unrotate_cong) (simp_all add: zigzagged_def)

lemma zigzagged_pixelLine: "pixelLine (zigzagged s) x y = pixelLine s x y"
proof -
  have "type (zigzagged s) AND DS_MATRIX_CORNER = type s AND DS_MATRIX_CORNER"
    "tilesX (zigzagged s) = tilesX s"
    by (simp_all add: zigzagged_def zigzag_bits)
  then show ?thesis
    by (simp add: pixelLine_def zigzagged_tileResolve zigzagged_pixelAxes zigzagged_unrotate
        split: prod.splits)
qed

lemma pixelResolve_progressive:
  assumes "type s AND DS_MATRIX_SEQUENCE = DS_MATRIX_PROGRESSIVE"
    and "pixelAxes s c a b = (major, minor, majorScale)"
  shows "pixelResolve s c a b = uint major * uint majorScale + uint minor"
  using assms by (simp add: pixelResolve_def)

lemma pixelResolve_zigzagged:
  assumes "pixelAxes s c a b = (major, minor, majorScale)"
  shows "pixelResolve (zigzagged s) c a b =
           (if even (uint major) then uint major * uint majorScale + uint minor
            else (uint major + 1) * uint majorScale - 1 - uint minor)"
proof -
  have "type (zigzagged s) AND DS_MATRIX_SEQUENCE \<noteq> DS_MATRIX_PROGRESSIVE"
    by (simp add: zigzagged_def zigzag_bits)
  then show ?thesis
    using assms by (simp add: pixelResolve_def zigzagged_pixelAxes and1_odd)
qed

lemma gridAxes_minor:
  assumes "0 \<le> x" "x < w" "0 \<le> y" "y < h"
    and "gridAxes right bottom cols w h x y = (major, minor, scale)"
  shows "minor < scale"
  using assms mirror_range [OF assms(1,2), of right] mirror_range [OF assms(3,4), of bottom]
  by (auto simp add: gridAxes_def split: if_splits)

lemma pixelAxes_minor:
  assumes "0 \<le> sint a" "sint a < uint (matrixWidth s)" "0 \<le> sint b" "sint b < uint (matrixHeight s)"
    and "pixelAxes s c a b = (major, minor, majorScale)"
  shows "uint minor < uint majorScale"
  using pixelAxes_int [OF assms(1-4), of c] assms(5)
    gridAxes_minor [OF assms(1-4), of "c AND DS_MATRIX_RIGHT \<noteq> 0" "c AND DS_MATRIX_BOTTOM \<noteq> 0"
      "type s AND DS_MATRIX_AXIS \<noteq> DS_MATRIX_ROWS" "uint major" "uint minor" "uint majorScale"]
  by (simp add: uint3_def)

lemma pixelLine_minor:
  assumes cfg: "configuration s" and c: "\<not> clipped s x y"
    and p: "pixelLine s x y = Some (tileOffset, major, minor, majorScale)"
  shows "uint minor < uint majorScale"
proof -
  obtain a b where r: "unrotate s x y = (a, b)" by (cases "unrotate s x y")
  show ?thesis
  proof (cases "tilesX s = 0")
    case True
    from drawIndex_untiled [OF cfg True c] r
    have i: "0 \<le> sint a" "sint a < uint (matrixWidth s)" "0 \<le> sint b" "sint b < uint (matrixHeight s)"
      by simp_all
    from p r True have "pixelAxes s (type s AND DS_MATRIX_CORNER) a b = (major, minor, majorScale)"
      by (simp add: pixelLine_def)
    with i show ?thesis by (rule pixelAxes_minor)
  next
    case False
    from cfg have W: "matrixWidth s \<noteq> 0" and H: "matrixHeight s \<noteq> 0"
      by (simp_all add: configuration_def geometry_def)
    then have Wd: "0 < uint (matrixWidth s)" and Hd: "0 < uint (matrixHeight s)"
      by (simp_all add: uint8_zero)
    have lim: "uint (matrixWidth s) < 256" "uint (matrixHeight s) < 256"
      using uint8_range by simp_all
    from drawIndex_tiled [OF cfg False c] r
    have i: "0 \<le> sint a" "sint a < uint (matrixWidth s) * uint (tilesX s)"
      "0 \<le> sint b" "sint b < uint (matrixHeight s) * uint (tilesY s)"
      by simp_all
    let ?lx = "sint a mod uint (matrixWidth s)" and ?ly = "sint b mod uint (matrixHeight s)"
    have l: "0 \<le> ?lx" "?lx < uint (matrixWidth s)" "0 \<le> ?ly" "?ly < uint (matrixHeight s)"
      using Wd Hd by simp_all
    have sl: "sint (word_of_int ?lx :: int16_t) = ?lx" "sint (word_of_int ?ly :: int16_t) = ?ly"
      using l lim by (simp_all add: s16_of_int)
    from p r False obtain corner
      where "pixelAxes s corner (word_of_int ?lx) (word_of_int ?ly) = (major, minor, majorScale)"
      by (auto simp add: pixelLine_def tileResolve_int [OF W H i])
    then show ?thesis
      using l by (intro pixelAxes_minor [of "word_of_int ?lx" s "word_of_int ?ly" corner major])
        (simp_all only: sl)
  qed
qed

subsection \<open>What the two drawing calls write\<close>

lemma fillLoop_pixels:
  "fillLoop i n c s = s\<lparr>pixels := pixels s @ map (\<lambda>k. (int k, c)) [unat i ..< unat n]\<rparr>"
proof (induction i n c s rule: fillLoop.induct)
  case (1 i n c s)
  show ?case
  proof (cases "i < n")
    case True
    then have *: "unat (i + 1) = Suc (unat i)" "unat i < unat n"
      by (simp_all add: uint16_succ word_less_nat_alt)
    have "fillLoop i n c s = fillLoop (i + 1) n c (setPixelColor (uint i) c s)"
      using True by (subst fillLoop.simps) simp
    also have "\<dots> = s\<lparr>pixels := pixels s @ map (\<lambda>k. (int k, c)) [unat i ..< unat n]\<rparr>"
      using 1[OF True] * by (simp add: setPixelColor_def upt_conv_Cons)
    finally show ?thesis .
  next
    case False
    then have "unat n \<le> unat i" by (simp add: word_less_nat_alt)
    with False show ?thesis by (subst fillLoop.simps) simp
  qed
qed

lemma fillScreen_pixels:
  "fillScreen g color s =
     s\<lparr>pixels := pixels s @
        map (\<lambda>k. (int k, if passThruFlag s then passThruColor s else expandColor g color))
          [0 ..< unat (numLEDs s)]\<rparr>"
  by (simp add: fillScreen_def fillLoop_pixels Let_def)


subsection \<open>An object without tiles over its life\<close>

lemma offsets_no_tiles:
  assumes "tilesX s = 0"
  shows "offsets s a b =
           (case remapFn s of
              None \<Rightarrow> Some (0, pixelResolve s (type s AND DS_MATRIX_CORNER) a b)
            | Some fn \<Rightarrow> Some (0, uint (fn a b)))"
  using assms by (simp add: offsets_def Let_def split: option.splits)

lemma drawPixel_no_tiles:
  assumes "tilesX s = 0"
  shows "\<exists>s'. drawPixel g x y color s = Some s' \<and>
              tilesX s' = 0 \<and> tilesY s' = tilesY s \<and> type s' = type s"
  using assms
  by (simp add: drawPixel_def drawIndex_def offsets_no_tiles setPixelColor_def
      split: prod.splits option.splits)

lemma perform_no_tiles:
  assumes "tilesX s = 0"
  shows "\<exists>s'. perform g c s = Some s' \<and> tilesX s' = 0 \<and> tilesY s' = tilesY s \<and> type s' = type s"
proof (cases c)
  case (DrawPixel x y color)
  with drawPixel_no_tiles [OF assms, of g x y color] show ?thesis by simp
next
  case (FillScreen color)
  then show ?thesis using assms by (simp add: fillScreen_pixels)
next
  case (SetPassThruColor p)
  then show ?thesis using assms by (simp add: setPassThruColor_def)
next
  case SetPassThruColor_void
  then show ?thesis using assms by (simp add: setPassThruColor_void_def)
next
  case (SetRemapFunction fn)
  then show ?thesis using assms by (simp add: setRemapFunction_def)
next
  case (SetRotation r)
  then show ?thesis using assms by (simp add: setRotation_def Let_def)
qed

lemma run_no_tiles:
  assumes "tilesX s = 0"
  shows "\<exists>s'. run g cs s = Some s' \<and> tilesX s' = 0 \<and> tilesY s' = tilesY s \<and> type s' = type s"
  using assms
proof (induction cs arbitrary: s)
  case Nil
  then show ?case by simp
next
  case (Cons c cs)
  from perform_no_tiles [OF Cons.prems, of g c]
  obtain s1 where p: "perform g c s = Some s1" "tilesX s1 = 0" "tilesY s1 = tilesY s" "type s1 = type s"
    by blast
  from Cons.IH [OF p(2)] p show ?case by simp
qed

subsection \<open>Objects whose sizes fit their fields\<close>

text \<open>
  For every configuration (a tile of at least 1x1, any tile counts, any value of the
  flags, any of the four rotations, no remap function; the canvas is the tile for a
  single matrix, the grid of tiles otherwise) every draw inside the canvas yields an
  index \<^verbatim>\<open>tileOffset + pixelOffset\<close> in \<open>[0, element_count)\<close>, and two draws that
  yield the same index are at the same coordinates. The lemmas
  \<open>configuration_single\<close>, \<open>configuration_tiled\<close> and \<open>configuration_setRotation\<close>
  show which calls of the constructors build configurations: the tiled ones whose
  canvas fits \<^verbatim>\<open>int16_t\<close> (\<open>tiled_too_large_clipped\<close>: the others clip every draw),
  and the single ones with a width and a height of at most 255.
\<close>

lemma index_injective:
  assumes cfg: "configuration s" and c: "\<not> clipped s x y" and c': "\<not> clipped s x' y'"
  shows "(\<exists>i. drawIndex s x y = Some i \<and> 0 \<le> i \<and> i < element_count s) \<and>
         (drawIndex s x y = drawIndex s x' y' \<longrightarrow> x = x' \<and> y = y')"
proof (cases "tilesX s = 0")
  case True
  let ?a = "fst (unrotate s x y)" and ?b = "snd (unrotate s x y)"
  let ?a' = "fst (unrotate s x' y')" and ?b' = "snd (unrotate s x' y')"
  let ?c = "type s AND DS_MATRIX_CORNER"
  note u = drawIndex_untiled [OF cfg True c] and u' = drawIndex_untiled [OF cfg True c']
  have range: "0 \<le> pixelGrid s ?c (sint ?a) (sint ?b) \<and>
      pixelGrid s ?c (sint ?a) (sint ?b) < element_count s"
    using pixelGrid_range [of "sint ?a" s "sint ?b" ?c] u True by (simp add: element_count_def)
  have inj: "x = x' \<and> y = y'" if "drawIndex s x y = drawIndex s x' y'"
  proof -
    from that u u' have "pixelGrid s ?c (sint ?a) (sint ?b) = pixelGrid s ?c (sint ?a') (sint ?b')"
      by simp
    then have "sint ?a = sint ?a' \<and> sint ?b = sint ?b'"
      using u u' by (intro pixelGrid_inj [of _ s _ _ _ ?c]) simp_all
    then have "unrotate s x y = unrotate s x' y'"
      by (simp add: prod_eq_iff sint_inj16)
    then show ?thesis by (rule unrotate_inj)
  qed
  show ?thesis using u range inj by blast
next
  case False
  let ?a = "fst (unrotate s x y)" and ?b = "snd (unrotate s x y)"
  let ?a' = "fst (unrotate s x' y')" and ?b' = "snd (unrotate s x' y')"
  let ?W = "uint (matrixWidth s)" and ?H = "uint (matrixHeight s)"
  let ?NX = "uint (tilesX s)" and ?NY = "uint (tilesY s)"
  let ?tc = "sint ?a div ?W" and ?tr = "sint ?b div ?H"
  let ?tc' = "sint ?a' div ?W" and ?tr' = "sint ?b' div ?H"
  let ?lx = "sint ?a mod ?W" and ?ly = "sint ?b mod ?H"
  let ?lx' = "sint ?a' mod ?W" and ?ly' = "sint ?b' mod ?H"
  let ?T = "tileGrid s ?tc ?tr" and ?T' = "tileGrid s ?tc' ?tr'"
  let ?P = "pixelGrid s (tileCorner s ?tc ?tr) ?lx ?ly"
  let ?P' = "pixelGrid s (tileCorner s ?tc' ?tr') ?lx' ?ly'"
  note t = drawIndex_tiled [OF cfg False c] and t' = drawIndex_tiled [OF cfg False c']
  from cfg have W: "0 < ?W" and H: "0 < ?H"
    by (simp_all add: configuration_def geometry_def uint8_zero)
  have tile: "0 \<le> ?tc \<and> ?tc < ?NX" "0 \<le> ?tr \<and> ?tr < ?NY"
    using int_div_range [OF _ _ W, of "sint ?a" ?NX] int_div_range [OF _ _ H, of "sint ?b" ?NY] t
    by simp_all
  have tile': "0 \<le> ?tc' \<and> ?tc' < ?NX" "0 \<le> ?tr' \<and> ?tr' < ?NY"
    using int_div_range [OF _ _ W, of "sint ?a'" ?NX] int_div_range [OF _ _ H, of "sint ?b'" ?NY] t'
    by simp_all
  have loc: "0 \<le> ?lx \<and> ?lx < ?W" "0 \<le> ?ly \<and> ?ly < ?H"
    and loc': "0 \<le> ?lx' \<and> ?lx' < ?W" "0 \<le> ?ly' \<and> ?ly' < ?H"
    using W H by simp_all
  have T: "0 \<le> ?T \<and> ?T < ?NX * ?NY" using tile by (intro tileGrid_range) simp_all
  have P: "0 \<le> ?P \<and> ?P < ?W * ?H" using loc by (intro pixelGrid_range) simp_all
  have P': "0 \<le> ?P' \<and> ?P' < ?W * ?H" using loc' by (intro pixelGrid_range) simp_all
  have range: "0 \<le> ?T * ?W * ?H + ?P \<and> ?T * ?W * ?H + ?P < element_count s"
  proof -
    have "0 \<le> ?T * (?W * ?H) + ?P \<and> ?T * (?W * ?H) + ?P < (?NX * ?NY) * (?W * ?H)"
      using T P by (intro quot_rem_bound) simp_all
    then show ?thesis using False by (simp add: element_count_def algebra_simps)
  qed
  have inj: "x = x' \<and> y = y'" if "drawIndex s x y = drawIndex s x' y'"
  proof -
    from that t t' have "?T * (?W * ?H) + ?P = ?T' * (?W * ?H) + ?P'"
      by (simp add: algebra_simps)
    then have e: "?T = ?T' \<and> ?P = ?P'"
      using P P' by (intro quot_rem_unique) simp_all
    then have tt: "?tc = ?tc' \<and> ?tr = ?tr'"
      using tile tile' by (intro tileGrid_inj [of _ s]) simp_all
    with e have "pixelGrid s (tileCorner s ?tc ?tr) ?lx ?ly =
        pixelGrid s (tileCorner s ?tc ?tr) ?lx' ?ly'" by simp
    then have ll: "?lx = ?lx' \<and> ?ly = ?ly'"
      using loc loc' by (intro pixelGrid_inj [of _ s _ _ _ "tileCorner s ?tc ?tr"]) simp_all
    have "sint ?a = ?tc * ?W + ?lx" "sint ?a' = ?tc' * ?W + ?lx'"
      "sint ?b = ?tr * ?H + ?ly" "sint ?b' = ?tr' * ?H + ?ly'"
      by simp_all
    with tt ll have "sint ?a = sint ?a' \<and> sint ?b = sint ?b'" by simp
    then have "unrotate s x y = unrotate s x' y'"
      by (simp add: prod_eq_iff sint_inj16)
    then show ?thesis by (rule unrotate_inj)
  qed
  show ?thesis using t range inj by blast
qed


text \<open>
  On two tiles of 2x2 pixels in zigzag order, at rotation 1 (a canvas of 4x2): the
  draws at (3,1) and (0,0) have an index below 8, and not the same one.
\<close>

lemma index_injective_example:
  "configuration (setRotation 1 tiles1x2) \<and>
   \<not> clipped (setRotation 1 tiles1x2) 3 1 \<and> \<not> clipped (setRotation 1 tiles1x2) 0 0 \<and>
   (\<exists>i. drawIndex (setRotation 1 tiles1x2) 3 1 = Some i \<and> 0 \<le> i \<and>
        i < element_count (setRotation 1 tiles1x2)) \<and>
   element_count (setRotation 1 tiles1x2) = 8 \<and>
   drawIndex (setRotation 1 tiles1x2) 3 1 \<noteq> drawIndex (setRotation 1 tiles1x2) 0 0"
proof -
  have n: "remapFn tiles1x2 = None"
    by (simp add: tiles1x2_def Adafruit_DotStarMatrix_tiled_def)
  have cfg: "configuration (setRotation 1 tiles1x2)"
    using geometry_tiles1x2 n by (rule configuration_setRotation)
  have c: "\<not> clipped (setRotation 1 tiles1x2) 3 1" and c': "\<not> clipped (setRotation 1 tiles1x2) 0 0"
    by (simp_all add: clipped_def setRotation_def tiles1x2_def Adafruit_DotStarMatrix_tiled_def)
  have e: "element_count (setRotation 1 tiles1x2) = 8"
    by (simp add: element_count_def setRotation_def tiles1x2_def Adafruit_DotStarMatrix_tiled_def)
  have "(3 :: int16_t) \<noteq> 0" by simp
  with index_injective [OF cfg c c'] cfg c c' e show ?thesis by blast
qed

text \<open>
  On an untiled matrix whose flags say top-left corner, rows and progressive order, at
  rotation 0 and with no remap function, a draw inside the canvas at \<open>(x, y)\<close> has the
  index \<open>y * matrixWidth + x\<close>: the width that counts is the field's.
\<close>

lemma row_major_index:
  assumes "tilesX s = 0" and "remapFn s = None" and "rotation s = 0"
    and "type s AND DS_MATRIX_CORNER = DS_MATRIX_TOP + DS_MATRIX_LEFT"
    and "type s AND DS_MATRIX_AXIS = DS_MATRIX_ROWS"
    and "type s AND DS_MATRIX_SEQUENCE = DS_MATRIX_PROGRESSIVE"
    and "\<not> clipped s x y"
  shows "drawIndex s x y = Some (sint y * uint (matrixWidth s) + sint x)"
proof -
  have b: "uint x = sint x" "uint y = sint y"
    using assms(7) by (simp_all add: clipped_def uint16_of_sint)
  have c: "type s AND DS_MATRIX_CORNER = 0"
    using assms(4) by (simp add: DS_MATRIX_TOP_def DS_MATRIX_LEFT_def)
  show ?thesis
    using assms(1,2,3,5,6)
    by (simp add: drawIndex_def unrotate_def offsets_def pixelResolve_def pixelAxes_def c b
        uint_ucast_8_16)
qed

text \<open>On the 5x3 matrix: the draw at (4,2) has index 2 * 5 + 4.\<close>

lemma row_major_index_example:
  "tilesX matrix5x3 = 0 \<and> remapFn matrix5x3 = None \<and> rotation matrix5x3 = 0 \<and>
   type matrix5x3 AND DS_MATRIX_CORNER = DS_MATRIX_TOP + DS_MATRIX_LEFT \<and>
   type matrix5x3 AND DS_MATRIX_AXIS = DS_MATRIX_ROWS \<and>
   type matrix5x3 AND DS_MATRIX_SEQUENCE = DS_MATRIX_PROGRESSIVE \<and>
   \<not> clipped matrix5x3 4 2 \<and> drawIndex matrix5x3 4 2 = Some (2 * 5 + 4)"
proof -
  have f: "tilesX matrix5x3 = 0" "remapFn matrix5x3 = None" "rotation matrix5x3 = 0"
    "type matrix5x3 AND DS_MATRIX_CORNER = DS_MATRIX_TOP + DS_MATRIX_LEFT"
    "type matrix5x3 AND DS_MATRIX_AXIS = DS_MATRIX_ROWS"
    "type matrix5x3 AND DS_MATRIX_SEQUENCE = DS_MATRIX_PROGRESSIVE"
    "\<not> clipped matrix5x3 4 2"
    by (simp_all add: matrix5x3_def Adafruit_DotStarMatrix_single_def DS_defs clipped_def)
  have w: "uint (matrixWidth matrix5x3) = 5"
    by (simp add: matrix5x3_def Adafruit_DotStarMatrix_single_def)
  show ?thesis
    using row_major_index [OF f] f w by simp
qed

text \<open>
  Take an object whose pixel sequence is progressive and no remap function, and set
  only the pixel-sequence bit. The tile offset and the triple major, minor, majorScale
  of every draw are unchanged. On an even major line the index is unchanged too:
  \<open>tileOffset + major * majorScale + minor\<close>. On an odd major line the index
  \<open>tileOffset + major * majorScale + minor\<close> becomes
  \<open>tileOffset + (major + 1) * majorScale - 1 - minor\<close>; as \<open>minor < majorScale\<close> for
  every draw inside the canvas of a configuration, that is there the same line's range
  of indices, run through in the opposite direction.
\<close>

lemma zigzag_lines:
  assumes "type s AND DS_MATRIX_SEQUENCE = DS_MATRIX_PROGRESSIVE" and "remapFn s = None"
  shows "pixelLine (zigzagged s) x y = pixelLine s x y \<and>
     (case pixelLine s x y of
        None \<Rightarrow> drawIndex s x y = None \<and> drawIndex (zigzagged s) x y = None
      | Some (tileOffset, major, minor, majorScale) \<Rightarrow>
          drawIndex s x y = Some (tileOffset + (uint major * uint majorScale + uint minor)) \<and>
          drawIndex (zigzagged s) x y =
            Some (tileOffset +
                  (if even (uint major) then uint major * uint majorScale + uint minor
                   else (uint major + 1) * uint majorScale - 1 - uint minor)) \<and>
          (configuration s \<and> \<not> clipped s x y \<longrightarrow> uint minor < uint majorScale))"
proof -
  obtain a b where r: "unrotate s x y = (a, b)" by (cases "unrotate s x y")
  have z: "remapFn (zigzagged s) = None" "tilesX (zigzagged s) = tilesX s"
    "type (zigzagged s) AND DS_MATRIX_CORNER = type s AND DS_MATRIX_CORNER"
    using assms(2) by (simp_all add: zigzagged_def zigzag_bits)
  let ?c = "type s AND DS_MATRIX_CORNER"
  show ?thesis
  proof (cases "pixelLine s x y")
    case None
    then have "tilesX s \<noteq> 0" "tileResolve s ?c a b = None"
      using r by (auto simp add: pixelLine_def split: if_splits)
    then have "drawIndex s x y = None" "drawIndex (zigzagged s) x y = None"
      using r assms(2) z
      by (simp_all add: drawIndex_def offsets_def zigzagged_unrotate zigzagged_tileResolve)
    with None show ?thesis by (simp add: zigzagged_pixelLine)
  next
    case (Some q)
    obtain tileOffset major minor majorScale where q: "q = (tileOffset, major, minor, majorScale)"
      by (cases q)
    from Some q r obtain corner lx ly
      where o: "offsets s a b = Some (tileOffset, pixelResolve s corner lx ly)"
        and o': "offsets (zigzagged s) a b = Some (tileOffset, pixelResolve (zigzagged s) corner lx ly)"
        and ax: "pixelAxes s corner lx ly = (major, minor, majorScale)"
      using assms(2) z
      by (auto simp add: pixelLine_def offsets_def zigzagged_tileResolve split: if_splits)
    have "drawIndex s x y = Some (tileOffset + (uint major * uint majorScale + uint minor))"
      using r o pixelResolve_progressive [OF assms(1) ax] by (simp add: drawIndex_def)
    moreover have "drawIndex (zigzagged s) x y =
            Some (tileOffset +
                  (if even (uint major) then uint major * uint majorScale + uint minor
                   else (uint major + 1) * uint majorScale - 1 - uint minor))"
      using r o' pixelResolve_zigzagged [OF ax]
      by (simp add: drawIndex_def zigzagged_unrotate)
    moreover have "uint minor < uint majorScale" if "configuration s" "\<not> clipped s x y"
      using pixelLine_minor [OF that] Some q by simp
    ultimately show ?thesis using Some q by (simp add: zigzagged_pixelLine)
  qed
qed

text \<open>On the 5x3 matrix: on line 1 the index 6 becomes 8, on line 2 the index 11 stays.\<close>

lemma zigzag_lines_example:
  "type matrix5x3 AND DS_MATRIX_SEQUENCE = DS_MATRIX_PROGRESSIVE \<and> remapFn matrix5x3 = None \<and>
   configuration matrix5x3 \<and> \<not> clipped matrix5x3 1 1 \<and>
   pixelLine matrix5x3 1 1 = Some (0, 1, 1, 5) \<and>
   drawIndex matrix5x3 1 1 = Some 6 \<and> drawIndex (zigzagged matrix5x3) 1 1 = Some 8 \<and>
   pixelLine matrix5x3 1 2 = Some (0, 2, 1, 5) \<and>
   drawIndex matrix5x3 1 2 = Some 11 \<and> drawIndex (zigzagged matrix5x3) 1 2 = Some 11"
proof -
  have p: "type matrix5x3 AND DS_MATRIX_SEQUENCE = DS_MATRIX_PROGRESSIVE"
    and n: "remapFn matrix5x3 = None"
    and c: "\<not> clipped matrix5x3 1 1"
    by (simp_all add: matrix5x3_def Adafruit_DotStarMatrix_single_def DS_defs clipped_def)
  have g: "geometry matrix5x3"
    unfolding matrix5x3_def by (rule geometry_single) simp_all
  have cfg: "configuration matrix5x3"
    using g n by (simp add: configuration_def rotated_def)
      (simp add: matrix5x3_def Adafruit_DotStarMatrix_single_def)
  have l1: "pixelLine matrix5x3 1 1 = Some (0, 1, 1, 5)"
    and l2: "pixelLine matrix5x3 1 2 = Some (0, 2, 1, 5)"
    by (simp_all add: pixelLine_def unrotate_def pixelAxes_def matrix5x3_def
        Adafruit_DotStarMatrix_single_def DS_defs)
  show ?thesis
    using zigzag_lines [OF p n, of 1 1] zigzag_lines [OF p n, of 1 2] p n cfg c l1 l2 by simp
qed

subsection \<open>C1: the index is injective and in range\<close>

text \<open>
  C1 asks that, whatever the tile geometry (W, H at least 1), the flags and the
  rotation, with no remap function, the draws inside the canvas have distinct indices
  \<^verbatim>\<open>tileOffset + pixelOffset\<close>, all below the number of pixels. The code does not do
  so for a single matrix wider or higher than 255. The constructor takes the width and
  the height as \<^verbatim>\<open>int\<close>, gives them as they are to the canvas and (their product) to
  the strip, and stores them in the \<^verbatim>\<open>uint8_t\<close> fields \<^verbatim>\<open>matrixWidth\<close> and
  \<^verbatim>\<open>matrixHeight\<close>, which the pixel resolver reads. On the 300x2 matrix (600
  pixels, rows, progressive, first pixel top left) \<^verbatim>\<open>matrixWidth\<close> is 44, and the
  draws at (44,0) and (0,1), both inside the canvas, have the index 44. On the 300x1
  matrix with the first pixel on the right (300 pixels) the draw at (100,0) has the
  index 65479.
\<close>

theorem C1_failing_input:
  "tilesX matrix300x2 = 0 \<and> remapFn matrix300x2 = None \<and> rotation matrix300x2 = 0 \<and>
   sint (WIDTH matrix300x2) = 300 \<and> sint (HEIGHT matrix300x2) = 2 \<and>
   unat (numLEDs matrix300x2) = 600 \<and>
   matrixWidth matrix300x2 = 44 \<and> matrixHeight matrix300x2 = 2 \<and>
   \<not> clipped matrix300x2 44 0 \<and> \<not> clipped matrix300x2 0 1 \<and>
   drawIndex matrix300x2 44 0 = Some 44 \<and> drawIndex matrix300x2 0 1 = Some 44 \<and>
   unat (numLEDs matrix300x1) = 300 \<and> \<not> clipped matrix300x1 100 0 \<and>
   drawIndex matrix300x1 100 0 = Some 65479"
  by (simp add: wide_defs model_defs DS_defs)

subsection \<open>C2: the 8x8 scenario\<close>

text \<open>
  C2, as the specification has it, is false: on the untiled 8x8 matrix with flags top +
  right + columns + progressive, \<^verbatim>\<open>drawPixel(0,0,c)\<close> does not resolve to index 0.
\<close>

theorem C2_counterexample: "drawIndex matrix8x8 0 0 \<noteq> Some 0"
  by (simp add: matrix8x8_def Adafruit_DotStarMatrix_single_def model_defs DS_defs)

text \<open>
  C2, amended: on that matrix, at rotation 0 and with no remap function,
  \<^verbatim>\<open>drawPixel(0,0,c)\<close> resolves to index 56 and \<^verbatim>\<open>drawPixel(7,0,c)\<close> to index 0: the
  first pixel of the strip is in the top right corner, as the flags say.
\<close>

theorem C2_scenario_8x8:
  "rotation matrix8x8 = 0 \<and> remapFn matrix8x8 = None \<and> tilesX matrix8x8 = 0 \<and>
   drawIndex matrix8x8 0 0 = Some 56 \<and> drawIndex matrix8x8 7 0 = Some 0 \<and>
   drawPixel g 0 0 c matrix8x8 = Some (setPixelColor 56 (expandColor g c) matrix8x8) \<and>
   drawPixel g 7 0 c matrix8x8 = Some (setPixelColor 0 (expandColor g c) matrix8x8)"
  by (simp add: matrix8x8_def Adafruit_DotStarMatrix_single_def model_defs DS_defs)

subsection \<open>C3: drawing outside the canvas\<close>

text \<open>
  C3: whatever the state of the object and the colour, \<^verbatim>\<open>drawPixel(x, y, color)\<close> with
  \<open>x < 0\<close> or \<open>y < 0\<close> or \<open>x\<close> not below the current (rotated) width or \<open>y\<close> not
  below the current height returns, and leaves the object as it was: nothing is sent to
  the strip, no field changes. The test is on the coordinates as given, before the
  rotation, which is why no rotation value appears in the statement.
\<close>

theorem C3_clip:
  assumes "sint x < 0 \<or> sint y < 0 \<or> sint (width' s) \<le> sint x \<or> sint (height' s) \<le> sint y"
  shows "drawPixel g x y color s = Some s"
  using assms by (auto simp add: drawPixel_def clipped_def)

text \<open>C3 at three calls outside the canvas: right of it, left of it, and below it after a rotation.\<close>

theorem C3_clip_witness:
  "drawPixel gamma_linear 8 0 5 matrix8x8 = Some matrix8x8 \<and>
   drawPixel gamma_linear (- 1) 3 5 matrix8x8 = Some matrix8x8 \<and>
   drawPixel gamma_linear 3 8 5 (setRotation 1 matrix8x8) = Some (setRotation 1 matrix8x8)"
proof -
  have a: "sint (8 :: int16_t) < 0 \<or> sint (0 :: int16_t) < 0 \<or>
      sint (width' matrix8x8) \<le> sint (8 :: int16_t) \<or> sint (height' matrix8x8) \<le> sint (0 :: int16_t)"
    by (simp add: matrix8x8_def Adafruit_DotStarMatrix_single_def)
  have b: "sint (- 1 :: int16_t) < 0 \<or> sint (3 :: int16_t) < 0 \<or>
      sint (width' matrix8x8) \<le> sint (- 1 :: int16_t) \<or> sint (height' matrix8x8) \<le> sint (3 :: int16_t)"
    by simp
  have c: "sint (3 :: int16_t) < 0 \<or> sint (8 :: int16_t) < 0 \<or>
      sint (width' (setRotation 1 matrix8x8)) \<le> sint (3 :: int16_t) \<or>
      sint (height' (setRotation 1 matrix8x8)) \<le> sint (8 :: int16_t)"
    by (simp add: matrix8x8_def Adafruit_DotStarMatrix_single_def setRotation_def)
  show ?thesis
    using C3_clip [OF a, of gamma_linear 5] C3_clip [OF b, of gamma_linear 5] C3_clip [OF c, of gamma_linear 5]
    by simp
qed

subsection \<open>C4: the rotation\<close>

text \<open>
  C4: for a draw inside the canvas (of an object whose current canvas is the unrotated
  one, sides exchanged at the odd rotations, as \<^verbatim>\<open>setRotation\<close> leaves it),
  \<^verbatim>\<open>drawPixel\<close> takes \<open>(x, y)\<close> to itself at rotation 0, to \<open>(W0-1-y, x)\<close> at rotation
  1 (90 degrees), to \<open>(W0-1-x, H0-1-y)\<close> at rotation 2 and to \<open>(y, H0-1-x)\<close> at
  rotation 3, where W0 and H0 are \<^verbatim>\<open>WIDTH\<close> and \<^verbatim>\<open>HEIGHT\<close>, the sides of the unrotated
  canvas; the differences are those of the integers, no 16-bit wrap-around occurs. The pair it obtains is what the resolvers, or
  the remap function, receive (\<open>offsets\<close>), and their result is the index drawn.
\<close>

theorem C4_rotation:
  assumes "rotated s" and "\<not> clipped s x y"
  shows "(rotation s = 0 \<longrightarrow> unrotate s x y = (x, y)) \<and>
         (rotation s = 1 \<longrightarrow>
            sint (fst (unrotate s x y)) = sint (WIDTH s) - 1 - sint y \<and> snd (unrotate s x y) = x) \<and>
         (rotation s = 2 \<longrightarrow>
            sint (fst (unrotate s x y)) = sint (WIDTH s) - 1 - sint x \<and>
            sint (snd (unrotate s x y)) = sint (HEIGHT s) - 1 - sint y) \<and>
         (rotation s = 3 \<longrightarrow>
            fst (unrotate s x y) = y \<and> sint (snd (unrotate s x y)) = sint (HEIGHT s) - 1 - sint x) \<and>
         drawPixel g x y color s =
           map_option
             (\<lambda>(tileOffset, pixelOffset).
                setPixelColor (tileOffset + pixelOffset)
                  (if passThruFlag s then passThruColor s else expandColor g color) s)
             (offsets s (fst (unrotate s x y)) (snd (unrotate s x y)))"
proof -
  have b: "0 \<le> sint x" "0 \<le> sint y"
    using assms(2) by (simp_all add: clipped_def)
  have "0 < sint (width' s)" "0 < sint (height' s)"
    using assms(2) by (simp_all add: clipped_def)
  with assms(1) have W: "0 \<le> sint (WIDTH s)" and H: "0 \<le> sint (HEIGHT s)"
    by (auto simp add: rotated_def split: if_splits)
  have lim: "sint x < 32768" "sint y < 32768" "sint (WIDTH s) < 32768" "sint (HEIGHT s) < 32768"
    using sint16_range by simp_all
  have m: "sint (word_of_int (n - 1 - k) :: int16_t) = n - 1 - k"
    if "0 \<le> k" "k < 32768" "0 \<le> n" "n < 32768" for n k :: int
    using that by (intro s16_of_int) simp_all
  note mx = m [OF b(1) lim(1)] and my = m [OF b(2) lim(2)]
  have r: "rotation s = 1 \<longrightarrow>
      sint (fst (unrotate s x y)) = sint (WIDTH s) - 1 - sint y \<and> snd (unrotate s x y) = x"
    using my [OF W lim(3)] by (simp add: unrotate_def)
  have r2: "rotation s = 2 \<longrightarrow>
            sint (fst (unrotate s x y)) = sint (WIDTH s) - 1 - sint x \<and>
            sint (snd (unrotate s x y)) = sint (HEIGHT s) - 1 - sint y"
    using mx [OF W lim(3)] my [OF H lim(4)] by (simp add: unrotate_def)
  have r3: "rotation s = 3 \<longrightarrow>
            fst (unrotate s x y) = y \<and> sint (snd (unrotate s x y)) = sint (HEIGHT s) - 1 - sint x"
    using mx [OF H lim(4)] by (simp add: unrotate_def)
  have r0: "rotation s = 0 \<longrightarrow> unrotate s x y = (x, y)"
    by (simp add: unrotate_def)
  have d: "drawPixel g x y color s =
           map_option
             (\<lambda>(tileOffset, pixelOffset).
                setPixelColor (tileOffset + pixelOffset)
                  (if passThruFlag s then passThruColor s else expandColor g color) s)
             (offsets s (fst (unrotate s x y)) (snd (unrotate s x y)))"
    using assms(2) by (simp add: drawPixel_def drawIndex_def split_def split: option.splits)
  show ?thesis using r0 r r2 r3 d by blast
qed

text \<open>C4 on the 5x3 matrix at rotation 1, whose canvas is 3x5: (2,4) goes to (0,2), index 10.\<close>

theorem C4_rotation_witness:
  "rotated (setRotation 1 matrix5x3) \<and> \<not> clipped (setRotation 1 matrix5x3) 2 4 \<and>
   rotation (setRotation 1 matrix5x3) = 1 \<and>
   sint (WIDTH (setRotation 1 matrix5x3)) = 5 \<and>
   sint (fst (unrotate (setRotation 1 matrix5x3) 2 4)) = 5 - 1 - 4 \<and>
   snd (unrotate (setRotation 1 matrix5x3) 2 4) = 2 \<and>
   drawPixel gamma_linear 2 4 7 (setRotation 1 matrix5x3) =
     Some (setPixelColor 10 (expandColor gamma_linear 7) (setRotation 1 matrix5x3))"
proof -
  let ?s = "setRotation 1 matrix5x3"
  have s: "?s = matrix5x3\<lparr>rotation := 1, width' := 3, height' := 5\<rparr>"
    by (simp add: setRotation_def matrix5x3_def Adafruit_DotStarMatrix_single_def)
  have f: "WIDTH ?s = 5" "HEIGHT ?s = 3" "rotation ?s = 1" "passThruFlag ?s = False"
    "remapFn ?s = None" "tilesX ?s = 0" "type ?s = 0" "matrixWidth ?s = 5" "matrixHeight ?s = 3"
    by (simp_all add: setRotation_def matrix5x3_def Adafruit_DotStarMatrix_single_def DS_defs)
  have c: "\<not> clipped ?s 2 4"
    by (simp add: s clipped_def)
  have rt: "rotated ?s" by (rule rotated_setRotation)
  have u: "unrotate ?s 2 4 = (0, 2)"
    by (simp add: unrotate_def f)
  have o: "offsets ?s 0 2 = Some (0, 10)"
    by (simp add: offsets_def pixelResolve_def pixelAxes_def f DS_defs)
  show ?thesis
    using C4_rotation [OF rt c, of gamma_linear 7] rt c u o by (simp add: f)
qed

subsection \<open>C5: row-major, progressive, top left\<close>

text \<open>
  C5 asks that on every untiled matrix with the flags top-left corner, rows and
  progressive order, at rotation 0 and with no remap function, a draw inside the canvas
  at \<open>(x, y)\<close> has the index \<open>y * width + x\<close> (the comment of \<^verbatim>\<open>setRemapFunction\<close>
  gives \<^verbatim>\<open>WIDTH * y + x\<close> as the row-major progressive function). On the 300x2
  matrix the draw at (0,1) is inside the canvas and has the index 44, not 300: the
  resolver multiplies by \<^verbatim>\<open>matrixWidth\<close>, the width truncated to \<^verbatim>\<open>uint8_t\<close>.
\<close>

theorem C5_failing_input:
  "tilesX matrix300x2 = 0 \<and> remapFn matrix300x2 = None \<and> rotation matrix300x2 = 0 \<and>
   type matrix300x2 AND DS_MATRIX_CORNER = DS_MATRIX_TOP + DS_MATRIX_LEFT \<and>
   type matrix300x2 AND DS_MATRIX_AXIS = DS_MATRIX_ROWS \<and>
   type matrix300x2 AND DS_MATRIX_SEQUENCE = DS_MATRIX_PROGRESSIVE \<and>
   sint (width' matrix300x2) = 300 \<and> sint (height' matrix300x2) = 2 \<and>
   \<not> clipped matrix300x2 0 1 \<and>
   drawIndex matrix300x2 0 1 = Some 44 \<and>
   drawIndex matrix300x2 0 1 \<noteq> Some (1 * 300 + 0)"
  by (simp add: wide_defs model_defs DS_defs)

subsection \<open>C6: progressive against zigzag\<close>

text \<open>
  C6 asks that setting only the pixel-sequence bit of a progressive configuration
  leaves the even major lines as they are and reverses every odd major line within that
  line's own range of indices. On the 300x2 matrix the draw at (100,1), inside the
  canvas, is on major line 1 with \<^verbatim>\<open>minor\<close> 100 and \<^verbatim>\<open>majorScale\<close> 44, the truncated
  width: its index is 144 in progressive order and -13 in zigzag order (the strip,
  whose indices are \<^verbatim>\<open>uint16_t\<close>, receives 65523), which is in no line's range.
\<close>

theorem C6_failing_input:
  "type matrix300x2 AND DS_MATRIX_SEQUENCE = DS_MATRIX_PROGRESSIVE \<and>
   remapFn matrix300x2 = None \<and> tilesX matrix300x2 = 0 \<and> rotation matrix300x2 = 0 \<and>
   type (zigzagged matrix300x2) = type matrix300x2 OR DS_MATRIX_ZIGZAG \<and>
   \<not> clipped matrix300x2 100 1 \<and>
   pixelLine matrix300x2 100 1 = Some (0, 1, 100, 44) \<and>
   drawIndex matrix300x2 100 1 = Some 144 \<and>
   drawIndex (zigzagged matrix300x2) 100 1 = Some (- 13) \<and>
   stripIndex (- 13) = 65523"
  by (simp add: wide_defs model_defs DS_defs pixelLine_def zigzagged_def stripIndex_def)

subsection \<open>C7: the pass-through colour\<close>

text \<open>
  C7: the pass-through state decides the colour sent to the strip and nothing else.
  Changing the flag and the stored colour changes neither the bounds check nor the
  index (also through the two setters); the colour sent is the stored 32-bit value as it
  is when the flag is set, whatever the colour argument, and \<open>expandColor color\<close> when
  it is not.
\<close>

theorem C7_passthrough:
  "clipped (s\<lparr>passThruFlag := f, passThruColor := p\<rparr>) x y = clipped s x y \<and>
   drawIndex (s\<lparr>passThruFlag := f, passThruColor := p\<rparr>) x y = drawIndex s x y \<and>
   drawIndex (setPassThruColor p s) x y = drawIndex s x y \<and>
   drawIndex (setPassThruColor_void s) x y = drawIndex s x y \<and>
   drawPixel g x y color s =
     (if clipped s x y then Some s
      else map_option
             (\<lambda>n. setPixelColor n (if passThruFlag s then passThruColor s else expandColor g color) s)
             (drawIndex s x y)) \<and>
   drawPixel g x y color (setPassThruColor p s) =
     (if clipped s x y then Some (setPassThruColor p s)
      else map_option (\<lambda>n. setPixelColor n p (setPassThruColor p s)) (drawIndex s x y)) \<and>
   drawPixel g x y color (setPassThruColor_void s) =
     (if clipped s x y then Some (setPassThruColor_void s)
      else map_option (\<lambda>n. setPixelColor n (expandColor g color) (setPassThruColor_void s))
             (drawIndex s x y))"
proof -
  have i: "drawIndex (s\<lparr>passThruFlag := f, passThruColor := p\<rparr>) x y = drawIndex s x y" for f p
    by (rule drawIndex_cong) simp_all
  have c: "clipped (s\<lparr>passThruFlag := f, passThruColor := p\<rparr>) x y = clipped s x y" for f p
    by (simp add: clipped_def)
  have d: "drawPixel g x y color s =
     (if clipped s x y then Some s
      else map_option
             (\<lambda>n. setPixelColor n (if passThruFlag s then passThruColor s else expandColor g color) s)
             (drawIndex s x y))" for s
    by (simp add: drawPixel_def split: option.splits)
  have s1: "setPassThruColor p s = s\<lparr>passThruFlag := True, passThruColor := p\<rparr>"
    by (simp add: setPassThruColor_def)
  have s2: "setPassThruColor_void s = s\<lparr>passThruFlag := False, passThruColor := passThruColor s\<rparr>"
    by (simp add: setPassThruColor_void_def)
  have d1: "drawPixel g x y color (setPassThruColor p s) =
     (if clipped s x y then Some (setPassThruColor p s)
      else map_option (\<lambda>n. setPixelColor n p (setPassThruColor p s)) (drawIndex s x y))"
    unfolding d [of "setPassThruColor p s"] unfolding s1 i c by simp
  have d2: "drawPixel g x y color (setPassThruColor_void s) =
     (if clipped s x y then Some (setPassThruColor_void s)
      else map_option (\<lambda>n. setPixelColor n (expandColor g color) (setPassThruColor_void s))
             (drawIndex s x y))"
    unfolding d [of "setPassThruColor_void s"] unfolding s2 i c by simp
  show ?thesis
    using i [where f = f and p = p] c [where f = f and p = p]
      i [where f = True and p = p, folded s1]
      i [where f = False and p = "passThruColor s", folded s2]
      d [of s] d1 d2
    by simp
qed

text \<open>
  C7 on the 8x8 matrix: with the pass-through colour 0x01020304 the draw at (1,2) sends
  that value to index 50; with pass-through off it sends the expanded colour to the
  same index.
\<close>

theorem C7_passthrough_witness:
  "drawIndex (setPassThruColor 0x01020304 matrix8x8) 1 2 = Some 50 \<and>
   drawIndex (setPassThruColor_void (setPassThruColor 0x01020304 matrix8x8)) 1 2 = Some 50 \<and>
   drawPixel gamma_linear 1 2 5 (setPassThruColor 0x01020304 matrix8x8) =
     Some (setPixelColor 50 0x01020304 (setPassThruColor 0x01020304 matrix8x8)) \<and>
   drawPixel gamma_linear 1 2 5 (setPassThruColor_void (setPassThruColor 0x01020304 matrix8x8)) =
     Some (setPixelColor 50 (expandColor gamma_linear 5)
             (setPassThruColor_void (setPassThruColor 0x01020304 matrix8x8)))"
proof -
  let ?m = "setPassThruColor 0x01020304 matrix8x8"
  have i: "drawIndex matrix8x8 1 2 = Some 50"
    by (simp add: matrix8x8_def Adafruit_DotStarMatrix_single_def model_defs DS_defs)
  have c: "\<not> clipped matrix8x8 1 2" "\<not> clipped ?m 1 2"
    by (simp_all add: matrix8x8_def Adafruit_DotStarMatrix_single_def clipped_def
        setPassThruColor_def)
  note on = C7_passthrough [where s = matrix8x8 and f = True and p = "0x01020304" and x = 1
        and y = 2 and g = gamma_linear and color = 5]
  note off = C7_passthrough [where s = ?m and f = True and p = "0x01020304" and x = 1
        and y = 2 and g = gamma_linear and color = 5]
  have i1: "drawIndex ?m 1 2 = Some 50"
    using on i by (elim conjE) (simp only:)
  have d1: "drawPixel gamma_linear 1 2 5 ?m = Some (setPixelColor 50 0x01020304 ?m)"
    using on i c(1) by (elim conjE) (simp only: if_False option.map)
  have i2: "drawIndex (setPassThruColor_void ?m) 1 2 = Some 50"
    using off i1 by (elim conjE) (simp only:)
  have d2: "drawPixel gamma_linear 1 2 5 (setPassThruColor_void ?m) =
      Some (setPixelColor 50 (expandColor gamma_linear 5) (setPassThruColor_void ?m))"
    using off i1 c(2) by (elim conjE) (simp only: if_False option.map)
  show ?thesis using i1 i2 d1 d2 by (intro conjI)
qed

subsection \<open>C8: the remap function\<close>

text \<open>
  C8: with a remap function installed, a draw inside the canvas calls it on the
  coordinates that the rotation produced and sends its result as the index:
  \<^verbatim>\<open>tileOffset\<close> is 0, the tile and pixel resolvers are not used and the result is not
  checked against any bound. Installing no function (\<^verbatim>\<open>NULL\<close>) gives the resolution by
  tile and pixel again; after installing and removing a function the object is what it
  was.
\<close>

theorem C8_remap:
  assumes "remapFn s = Some fn" and "\<not> clipped s x y"
  shows "offsets s (fst (unrotate s x y)) (snd (unrotate s x y)) =
           Some (0, uint (fn (fst (unrotate s x y)) (snd (unrotate s x y)))) \<and>
         drawPixel g x y color s =
           Some (setPixelColor (uint (fn (fst (unrotate s x y)) (snd (unrotate s x y))))
                   (if passThruFlag s then passThruColor s else expandColor g color) s) \<and>
         offsets (setRemapFunction None s) x y =
           (if tilesX s \<noteq> 0
            then map_option (\<lambda>(tileOffset, corner, lx, ly). (tileOffset, pixelResolve s corner lx ly))
                   (tileResolve s (type s AND DS_MATRIX_CORNER) x y)
            else Some (0, pixelResolve s (type s AND DS_MATRIX_CORNER) x y)) \<and>
         (remapFn s0 = None \<longrightarrow> setRemapFunction None (setRemapFunction (Some fn) s0) = s0)"
proof -
  obtain x' y' where r: "unrotate s x y = (x', y')" by (cases "unrotate s x y")
  have o: "offsets s x' y' = Some (0, uint (fn x' y'))"
    using assms(1) by (simp add: offsets_def)
  have d: "drawPixel g x y color s =
      Some (setPixelColor (uint (fn x' y'))
              (if passThruFlag s then passThruColor s else expandColor g color) s)"
    using assms(2) r o by (simp add: drawPixel_def drawIndex_def)
  have p: "pixelResolve (s\<lparr>remapFn := None\<rparr>) c a b = pixelResolve s c a b" for c a b
    by (rule pixelResolve_cong) simp_all
  have t: "tileResolve (s\<lparr>remapFn := None\<rparr>) c a b = tileResolve s c a b" for c a b
    by (rule tileResolve_cong) simp_all
  have n: "offsets (setRemapFunction None s) x y =
           (if tilesX s \<noteq> 0
            then map_option (\<lambda>(tileOffset, corner, lx, ly). (tileOffset, pixelResolve s corner lx ly))
                   (tileResolve s (type s AND DS_MATRIX_CORNER) x y)
            else Some (0, pixelResolve s (type s AND DS_MATRIX_CORNER) x y))"
    by (simp add: offsets_def setRemapFunction_def p t split: option.splits)
  have i: "remapFn s0 = None \<longrightarrow> setRemapFunction None (setRemapFunction (Some fn) s0) = s0"
    by (simp add: setRemapFunction_def)
  show ?thesis using r o d n i by simp
qed


text \<open>C8 on the 8x8 matrix (64 pixels): the remap function's 65535 is the index sent.\<close>

theorem C8_remap_witness:
  "remapFn (setRemapFunction (Some remapConst) matrix8x8) = Some remapConst \<and>
   \<not> clipped (setRemapFunction (Some remapConst) matrix8x8) 1 2 \<and>
   drawPixel gamma_linear 1 2 5 (setRemapFunction (Some remapConst) matrix8x8) =
     Some (setPixelColor 65535 (expandColor gamma_linear 5) (setRemapFunction (Some remapConst) matrix8x8)) \<and>
   offsets (setRemapFunction None (setRemapFunction (Some remapConst) matrix8x8)) 1 2 = Some (0, 50) \<and>
   setRemapFunction None (setRemapFunction (Some remapConst) matrix8x8) = matrix8x8"
proof -
  have a: "remapFn (setRemapFunction (Some remapConst) matrix8x8) = Some remapConst"
    by (simp add: setRemapFunction_def)
  have b: "\<not> clipped (setRemapFunction (Some remapConst) matrix8x8) 1 2"
    by (simp add: setRemapFunction_def clipped_def matrix8x8_def Adafruit_DotStarMatrix_single_def)
  have c: "remapFn matrix8x8 = None" "passThruFlag matrix8x8 = False"
    by (simp_all add: matrix8x8_def Adafruit_DotStarMatrix_single_def)
  have d: "passThruFlag (setRemapFunction (Some remapConst) matrix8x8) = False"
    by (simp add: setRemapFunction_def c)
  have e: "offsets matrix8x8 1 2 = Some (0, 50)"
    by (simp add: matrix8x8_def Adafruit_DotStarMatrix_single_def model_defs DS_defs)
  show ?thesis
    using C8_remap [OF a b, of gamma_linear 5 matrix8x8] a b c d e
    by (simp add: remapConst_def)
qed

subsection \<open>C9: what a draw leaves alone\<close>

text \<open>
  C9: \<^verbatim>\<open>drawPixel\<close> and \<^verbatim>\<open>fillScreen\<close> change no field of the object: the layout flags,
  the tile size, the tile counts, the rotation, the remap function and the pass-through
  flag and colour are after the call what they were before it. In particular the flip
  of the corner on the odd lines of a zigzag tiling is made on a local variable: the
  stored flags keep their value.
\<close>

theorem C9_frame:
  "(\<forall>s'. drawPixel g x y color s = Some s' \<longrightarrow> unchanged s s') \<and>
   unchanged s (fillScreen g color s)"
proof -
  have "unchanged s s'" if "drawPixel g x y color s = Some s'" for s'
    using that
    by (auto simp add: drawPixel_def setPixelColor_def unchanged_def split: if_splits option.splits)
  moreover have "unchanged s (fillScreen g color s)"
    by (simp add: fillScreen_pixels unchanged_def)
  ultimately show ?thesis by blast
qed

text \<open>C9 on a draw that flips the corner (second tile of a zigzag tiling), and on a fill.\<close>

theorem C9_frame_witness:
  "drawPixel gamma_linear 0 2 5 tiles1x2 = Some (setPixelColor 7 (expandColor gamma_linear 5) tiles1x2) \<and>
   unchanged tiles1x2 (setPixelColor 7 (expandColor gamma_linear 5) tiles1x2) \<and>
   type (setPixelColor 7 (expandColor gamma_linear 5) tiles1x2) = DS_TILE_ZIGZAG \<and>
   unchanged tiles1x2 (fillScreen gamma_linear 5 tiles1x2)"
proof -
  have d: "drawPixel gamma_linear 0 2 5 tiles1x2 = Some (setPixelColor 7 (expandColor gamma_linear 5) tiles1x2)"
    by (simp add: tiles1x2_def Adafruit_DotStarMatrix_tiled_def model_defs DS_defs
        signed_divide_int_def)
  have t: "type (setPixelColor 7 (expandColor gamma_linear 5) tiles1x2) = DS_TILE_ZIGZAG"
    by (simp add: tiles1x2_def Adafruit_DotStarMatrix_tiled_def setPixelColor_def)
  show ?thesis
    using C9_frame [of gamma_linear 0 2 5 tiles1x2] d t by simp
qed

subsection \<open>C10: single matrices are never tiled\<close>

text \<open>
  C10, as stated, is false: it has the index be \<^verbatim>\<open>tileOffset\<close> 0 plus the pixel
  resolver's offset for every draw over the life of an object built by a single-matrix
  constructor. \<^verbatim>\<open>setRemapFunction\<close> is a call of that life: after it, on the 8x8
  matrix, the draw at (0,0) has the remap function's 65535 for index, where the pixel
  resolver gives 56.
\<close>

theorem C10_counterexample:
  "run gamma_linear [SetRemapFunction (Some remapConst)] matrix8x8 =
     Some (setRemapFunction (Some remapConst) matrix8x8) \<and>
   \<not> clipped (setRemapFunction (Some remapConst) matrix8x8) 0 0 \<and>
   drawIndex (setRemapFunction (Some remapConst) matrix8x8) 0 0 = Some 65535 \<and>
   0 + pixelResolve (setRemapFunction (Some remapConst) matrix8x8)
         (type (setRemapFunction (Some remapConst) matrix8x8) AND DS_MATRIX_CORNER) 0 0 = 56"
  by (simp add: matrix8x8_def Adafruit_DotStarMatrix_single_def setRemapFunction_def remapConst_def
      model_defs DS_defs)

text \<open>
  C10, amended: both single-matrix constructors set \<^verbatim>\<open>tilesX = 0\<close>, \<^verbatim>\<open>tilesY = 0\<close> and
  \<^verbatim>\<open>remapFn = NULL\<close>. Every sequence of calls on such an object returns, and leaves
  \<^verbatim>\<open>tilesX\<close>, \<^verbatim>\<open>tilesY\<close> and the flags as constructed: no draw enters the tiled
  branch, and \<^verbatim>\<open>tileOffset\<close> is 0 for every draw. While no remap function is
  installed, \<^verbatim>\<open>pixelOffset\<close> is the pixel resolver's offset, computed with the corner
  bits of the flags as they are; with a remap function installed it is the function's
  result.
\<close>

theorem C10_single_matrix_lifetime:
  assumes "s0 = Adafruit_DotStarMatrix_single w h matrixType ledType pc \<or>
           s0 = Adafruit_DotStarMatrix_single_bitbang w h d c matrixType ledType pc"
  shows "tilesX s0 = 0 \<and> tilesY s0 = 0 \<and> remapFn s0 = None \<and>
         (\<exists>s. run g cs s0 = Some s \<and> tilesX s = 0 \<and> tilesY s = 0 \<and> type s = matrixType \<and>
              (\<forall>x y. offsets s x y =
                 (case remapFn s of
                    None \<Rightarrow> Some (0, pixelResolve s (matrixType AND DS_MATRIX_CORNER) x y)
                  | Some fn \<Rightarrow> Some (0, uint (fn x y)))))"
proof -
  from assms have i: "tilesX s0 = 0" "tilesY s0 = 0" "remapFn s0 = None" "type s0 = matrixType"
    by (auto simp add: Adafruit_DotStarMatrix_single_def Adafruit_DotStarMatrix_single_bitbang_def)
  from run_no_tiles [OF i(1), of g cs]
  obtain s where s: "run g cs s0 = Some s" "tilesX s = 0" "tilesY s = tilesY s0" "type s = type s0"
    by blast
  with i offsets_no_tiles [OF s(2)] show ?thesis by (simp split: option.splits)
qed

text \<open>C10 on the 8x8 matrix after a rotation, a draw, a pass-through colour and a fill.\<close>

theorem C10_single_matrix_lifetime_witness:
  "(\<exists>s. run gamma_linear [SetRotation 1, DrawPixel 0 0 5, SetPassThruColor 9, FillScreen 0] matrix8x8 = Some s \<and>
        tilesX s = 0 \<and> tilesY s = 0 \<and>
        type s = DS_MATRIX_TOP + DS_MATRIX_RIGHT + DS_MATRIX_COLUMNS + DS_MATRIX_PROGRESSIVE \<and>
        remapFn s = None \<and>
        offsets s 0 7 =
          Some (0, pixelResolve s
                     ((DS_MATRIX_TOP + DS_MATRIX_RIGHT + DS_MATRIX_COLUMNS + DS_MATRIX_PROGRESSIVE)
                        AND DS_MATRIX_CORNER) 0 7))"
proof -
  let ?cs = "[SetRotation 1, DrawPixel 0 0 5, SetPassThruColor 9, FillScreen 0]"
  have m: "matrix8x8 = Adafruit_DotStarMatrix_single 8 8
       (DS_MATRIX_TOP + DS_MATRIX_RIGHT + DS_MATRIX_COLUMNS + DS_MATRIX_PROGRESSIVE) 0 0 \<or>
      matrix8x8 = Adafruit_DotStarMatrix_single_bitbang 8 8 4 5
       (DS_MATRIX_TOP + DS_MATRIX_RIGHT + DS_MATRIX_COLUMNS + DS_MATRIX_PROGRESSIVE) 0 0"
    by (simp add: matrix8x8_def)
  from C10_single_matrix_lifetime [OF m, of gamma_linear ?cs]
  obtain s where s: "run gamma_linear ?cs matrix8x8 = Some s" "tilesX s = 0" "tilesY s = 0"
    "type s = DS_MATRIX_TOP + DS_MATRIX_RIGHT + DS_MATRIX_COLUMNS + DS_MATRIX_PROGRESSIVE"
    "\<And>x y. offsets s x y =
       (case remapFn s of
          None \<Rightarrow> Some (0, pixelResolve s
              ((DS_MATRIX_TOP + DS_MATRIX_RIGHT + DS_MATRIX_COLUMNS + DS_MATRIX_PROGRESSIVE)
                 AND DS_MATRIX_CORNER) x y)
        | Some fn \<Rightarrow> Some (0, uint (fn x y)))"
    by blast
  have r: "remapFn s = None"
  proof -
    have "\<exists>s'. run gamma_linear ?cs matrix8x8 = Some s' \<and> remapFn s' = None"
      by (simp add: matrix8x8_def Adafruit_DotStarMatrix_single_def setRotation_def
          setPassThruColor_def fillScreen_pixels model_defs DS_defs)
    with s(1) show ?thesis by simp
  qed
  from s(5) [of 0 7] r have "offsets s 0 7 =
          Some (0, pixelResolve s
                     ((DS_MATRIX_TOP + DS_MATRIX_RIGHT + DS_MATRIX_COLUMNS + DS_MATRIX_PROGRESSIVE)
                        AND DS_MATRIX_CORNER) 0 7)" by simp
  with s(1-4) r show ?thesis by blast
qed

end
